theory Spec2Isabelle
  imports Complex_Main "HOL-Library.Multiset" "HOL-Library.List_Lexorder" "HOL-Library.Char_ord"
begin

section \<open>Data model (lib/database: interfaces Trip, TripEntry, PackingItem)\<close>

text \<open>
  The three interfaces share field names (\<open>id\<close>, \<open>userId\<close>, \<open>createdAt\<close>, ...), and
  \<open>id\<close> is a constant of HOL, so every field carries the initial of its interface:
  \<open>t_userId\<close> is \<open>Trip.userId\<close>, \<open>e_userId\<close> is \<open>TripEntry.userId\<close>, \<open>p_userId\<close> is
  \<open>PackingItem.userId\<close>. An optional field (\<open>description?: string\<close>) is a
  \<open>string option\<close>; \<open>None\<close> is the absent property.
\<close>

record Trip =
  t_id :: string
  t_userId :: string
  t_title :: string
  t_description :: "string option"
  t_destination :: string
  t_startDate :: string
  t_endDate :: string
  t_createdAt :: string
  t_updatedAt :: "string option"

record TripEntry =
  e_id :: string
  e_tripId :: string
  e_userId :: string
  e_title :: string
  e_description :: "string option"
  e_location :: "string option"
  e_address :: "string option"
  e_date :: string
  e_startTime :: "string option"
  e_endTime :: "string option"
  e_category :: string
  e_createdAt :: string
  e_updatedAt :: "string option"

record PackingItem =
  p_id :: string
  p_tripId :: string
  p_userId :: string
  p_itemName :: string
  p_category :: "string option"
  p_isPacked :: bool
  p_notes :: "string option"
  p_createdAt :: string

section \<open>The seed records (mockTrips, mockTripEntries, mockPackingItems)\<close>

definition mockTrips :: "Trip list" where
  "mockTrips = [
     \<lparr> t_id = ''1'', t_userId = ''mock-user'', t_title = ''Tokyo Adventure'',
       t_description = Some ''Exploring the vibrant culture and cuisine of Japan'',
       t_destination = ''Tokyo, Japan'',
       t_startDate = ''2024-03-15'', t_endDate = ''2024-03-22'',
       t_createdAt = ''2024-01-15T10:00:00Z'', t_updatedAt = Some ''2024-01-15T10:00:00Z'' \<rparr>,
     \<lparr> t_id = ''2'', t_userId = ''mock-user'', t_title = ''European Summer'',
       t_description = Some ''Multi-city tour across Europe'',
       t_destination = ''Paris, Rome, Barcelona'',
       t_startDate = ''2024-06-10'', t_endDate = ''2024-06-25'',
       t_createdAt = ''2024-01-20T14:30:00Z'', t_updatedAt = Some ''2024-01-20T14:30:00Z'' \<rparr>,
     \<lparr> t_id = ''3'', t_userId = ''mock-user'', t_title = ''Bali Retreat'',
       t_description = Some ''Relaxing getaway in tropical paradise'',
       t_destination = ''Bali, Indonesia'',
       t_startDate = ''2024-08-05'', t_endDate = ''2024-08-12'',
       t_createdAt = ''2024-02-01T09:15:00Z'', t_updatedAt = Some ''2024-02-01T09:15:00Z'' \<rparr> ]"

text \<open>
  Two seed strings hold an apostrophe (\<open>Tokyo's\<close>, \<open>Don't\<close>); it is written as the
  character \<open>CHR 0x27\<close>.
\<close>

definition mockTripEntries :: "TripEntry list" where
  "mockTripEntries = [
     \<lparr> e_id = ''1'', e_tripId = ''1'', e_userId = ''mock-user'',
       e_title = ''Arrival at Narita Airport'',
       e_description = Some ''Flight arrival and transfer to hotel'',
       e_location = Some ''Narita International Airport'',
       e_address = Some ''1-1 Furugome, Narita, Chiba 282-0004, Japan'',
       e_date = ''2024-03-15'', e_startTime = Some ''14:30'', e_endTime = Some ''16:00'',
       e_category = ''transport'',
       e_createdAt = ''2024-01-15T10:00:00Z'', e_updatedAt = Some ''2024-01-15T10:00:00Z'' \<rparr>,
     \<lparr> e_id = ''2'', e_tripId = ''1'', e_userId = ''mock-user'',
       e_title = ''Visit Senso-ji Temple'',
       e_description = Some (''Explore Tokyo'' @ [CHR 0x27] @ ''s oldest temple in Asakusa''),
       e_location = Some ''Senso-ji Temple'',
       e_address = Some ''2-3-1 Asakusa, Taito City, Tokyo 111-0032, Japan'',
       e_date = ''2024-03-16'', e_startTime = Some ''10:00'', e_endTime = Some ''12:00'',
       e_category = ''sightseeing'',
       e_createdAt = ''2024-01-15T10:05:00Z'', e_updatedAt = Some ''2024-01-15T10:05:00Z'' \<rparr>,
     \<lparr> e_id = ''3'', e_tripId = ''1'', e_userId = ''mock-user'',
       e_title = ''Sushi Dinner at Tsukiji'',
       e_description = Some ''Fresh sushi at the famous fish market'',
       e_location = Some ''Tsukiji Outer Market'',
       e_address = Some ''4 Chome Tsukiji, Chuo City, Tokyo 104-0045, Japan'',
       e_date = ''2024-03-16'', e_startTime = Some ''18:00'', e_endTime = Some ''20:00'',
       e_category = ''dining'',
       e_createdAt = ''2024-01-15T10:10:00Z'', e_updatedAt = Some ''2024-01-15T10:10:00Z'' \<rparr> ]"

definition mockPackingItems :: "PackingItem list" where
  "mockPackingItems = [
     \<lparr> p_id = ''1'', p_tripId = ''1'', p_userId = ''mock-user'', p_itemName = ''Passport'',
       p_category = Some ''documents'', p_isPacked = True,
       p_notes = Some ''Check expiration date'', p_createdAt = ''2024-01-15T10:00:00Z'' \<rparr>,
     \<lparr> p_id = ''2'', p_tripId = ''1'', p_userId = ''mock-user'', p_itemName = ''Camera'',
       p_category = Some ''electronics'', p_isPacked = False,
       p_notes = Some (''Don'' @ [CHR 0x27] @ ''t forget extra batteries''),
       p_createdAt = ''2024-01-15T10:05:00Z'' \<rparr>,
     \<lparr> p_id = ''3'', p_tripId = ''1'', p_userId = ''mock-user'',
       p_itemName = ''Comfortable Walking Shoes'',
       p_category = Some ''clothing'', p_isPacked = False,
       p_notes = None, p_createdAt = ''2024-01-15T10:10:00Z'' \<rparr> ]"

section \<open>The remote client, as the data-access layer uses it\<close>

text \<open>
  The client \<open>blink\<close> is an external collaborator. Each of its calls either returns a
  value or throws, and may behave differently from one call to the next, so a call is a
  function of a hidden remote state \<open>'r\<close> that returns the outcome (\<open>Inl\<close> the thrown
  value) and the next remote state. The theorems hold for every such client.
\<close>

datatype exn = Exn string

record user =
  u_id :: string
  u_email :: string

text \<open>
  The argument of \<open>db.<collection>.list\<close>: the \<open>where\<close> and \<open>orderBy\<close> object literals
  as lists of property and value, \<open>limit\<close> when it is given.
\<close>

record list_query =
  q_where :: "(string \<times> string) list"
  q_orderBy :: "(string \<times> string) list"
  q_limit :: "nat option"

record 'r blink =
  auth_me :: "'r \<Rightarrow> (exn + user) \<times> 'r"
  trips_list :: "list_query \<Rightarrow> 'r \<Rightarrow> (exn + Trip list) \<times> 'r"
  tripEntries_list :: "list_query \<Rightarrow> 'r \<Rightarrow> (exn + TripEntry list) \<times> 'r"
  packingItems_list :: "list_query \<Rightarrow> 'r \<Rightarrow> (exn + PackingItem list) \<times> 'r"

datatype request =
    ReqAuthMe
  | ReqTripsList list_query
  | ReqTripEntriesList list_query
  | ReqPackingItemsList list_query

text \<open>
  The process state the data-access layer runs in: the static field
  \<open>DatabaseService.isDatabaseAvailable\<close> (\<open>None\<close> is \<open>null\<close>), the remote state, the
  requests sent to the remote so far and the console lines written so far.
\<close>

record 'r world =
  isDatabaseAvailable :: "bool option"
  remote :: 'r
  requests :: "request list"
  console :: "string list"

definition call_auth_me :: "'r blink \<Rightarrow> 'r world \<Rightarrow> (exn + user) \<times> 'r world" where
  "call_auth_me B w =
     (case auth_me B (remote w) of
        (res, r') \<Rightarrow> (res, w\<lparr>remote := r', requests := requests w @ [ReqAuthMe]\<rparr>))"

definition call_trips_list ::
  "'r blink \<Rightarrow> list_query \<Rightarrow> 'r world \<Rightarrow> (exn + Trip list) \<times> 'r world" where
  "call_trips_list B q w =
     (case trips_list B q (remote w) of
        (res, r') \<Rightarrow> (res, w\<lparr>remote := r', requests := requests w @ [ReqTripsList q]\<rparr>))"

definition call_tripEntries_list ::
  "'r blink \<Rightarrow> list_query \<Rightarrow> 'r world \<Rightarrow> (exn + TripEntry list) \<times> 'r world" where
  "call_tripEntries_list B q w =
     (case tripEntries_list B q (remote w) of
        (res, r') \<Rightarrow> (res, w\<lparr>remote := r', requests := requests w @ [ReqTripEntriesList q]\<rparr>))"

definition call_packingItems_list ::
  "'r blink \<Rightarrow> list_query \<Rightarrow> 'r world \<Rightarrow> (exn + PackingItem list) \<times> 'r world" where
  "call_packingItems_list B q w =
     (case packingItems_list B q (remote w) of
        (res, r') \<Rightarrow> (res, w\<lparr>remote := r', requests := requests w @ [ReqPackingItemsList q]\<rparr>))"

definition console_log :: "string \<Rightarrow> 'r world \<Rightarrow> 'r world" where
  "console_log line w = w\<lparr>console := console w @ [line]\<rparr>"

section \<open>DatabaseService\<close>

text \<open>
  Every method returns \<open>exn + result\<close> with the new process state: \<open>Inl\<close> is a rejected
  promise. \<open>checkDatabaseAvailability\<close> returns the memoized flag when it is not
  \<open>null\<close>; otherwise it probes (\<open>auth.me()\<close>, then \<open>trips.list\<close> with \<open>limit: 1\<close>),
  and its \<open>catch\<close> takes whatever either call throws.
\<close>

definition probe_query :: "string \<Rightarrow> list_query" where
  "probe_query uid = \<lparr> q_where = [(''userId'', uid)], q_orderBy = [], q_limit = Some 1 \<rparr>"

definition checkDatabaseAvailability :: "'r blink \<Rightarrow> 'r world \<Rightarrow> (exn + bool) \<times> 'r world" where
  "checkDatabaseAvailability B w =
     (case isDatabaseAvailable w of
        Some b \<Rightarrow> (Inr b, w)
      | None \<Rightarrow>
          (case call_auth_me B w of
             (Inl err, w1) \<Rightarrow>
               (Inr False,
                (console_log ''Database not available, using mock data:'' w1)
                  \<lparr>isDatabaseAvailable := Some False\<rparr>)
           | (Inr usr, w1) \<Rightarrow>
               (case call_trips_list B (probe_query (u_id usr)) w1 of
                  (Inl err, w2) \<Rightarrow>
                    (Inr False,
                     (console_log ''Database not available, using mock data:'' w2)
                       \<lparr>isDatabaseAvailable := Some False\<rparr>)
                | (Inr _, w2) \<Rightarrow> (Inr True, w2\<lparr>isDatabaseAvailable := Some True\<rparr>))))"

definition trips_query :: "string \<Rightarrow> list_query" where
  "trips_query userId =
     \<lparr> q_where = [(''userId'', userId)], q_orderBy = [(''createdAt'', ''desc'')],
       q_limit = None \<rparr>"

definition tripEntries_query :: "string \<Rightarrow> string \<Rightarrow> list_query" where
  "tripEntries_query tripId userId =
     \<lparr> q_where = [(''tripId'', tripId), (''userId'', userId)],
       q_orderBy = [(''date'', ''asc''), (''startTime'', ''asc'')], q_limit = None \<rparr>"

definition packingItems_query :: "string \<Rightarrow> string \<Rightarrow> list_query" where
  "packingItems_query tripId userId =
     \<lparr> q_where = [(''tripId'', tripId), (''userId'', userId)],
       q_orderBy = [(''category'', ''asc''), (''itemName'', ''asc'')], q_limit = None \<rparr>"

text \<open>The three fallback results, as the last line of each method computes them.\<close>

definition fallbackTrips :: "string \<Rightarrow> Trip list" where
  "fallbackTrips userId = map (\<lambda>trip. trip\<lparr>t_userId := userId\<rparr>) mockTrips"

definition fallbackTripEntries :: "string \<Rightarrow> TripEntry list" where
  "fallbackTripEntries tripId = filter (\<lambda>entry. e_tripId entry = tripId) mockTripEntries"

definition fallbackPackingItems :: "string \<Rightarrow> PackingItem list" where
  "fallbackPackingItems tripId = filter (\<lambda>item. p_tripId item = tripId) mockPackingItems"

definition query_failed :: string where
  "query_failed = ''Database query failed, falling back to mock data:''"

definition getTrips :: "'r blink \<Rightarrow> string \<Rightarrow> 'r world \<Rightarrow> (exn + Trip list) \<times> 'r world" where
  "getTrips B userId w =
     (case checkDatabaseAvailability B w of
        (Inl err, w1) \<Rightarrow> (Inl err, w1)
      | (Inr isAvailable, w1) \<Rightarrow>
          if isAvailable then
            (case call_trips_list B (trips_query userId) w1 of
               (Inr rows, w2) \<Rightarrow> (Inr rows, w2)
             | (Inl err, w2) \<Rightarrow> (Inr (fallbackTrips userId), console_log query_failed w2))
          else (Inr (fallbackTrips userId), w1))"

definition getTripEntries ::
  "'r blink \<Rightarrow> string \<Rightarrow> string \<Rightarrow> 'r world \<Rightarrow> (exn + TripEntry list) \<times> 'r world" where
  "getTripEntries B tripId userId w =
     (case checkDatabaseAvailability B w of
        (Inl err, w1) \<Rightarrow> (Inl err, w1)
      | (Inr isAvailable, w1) \<Rightarrow>
          if isAvailable then
            (case call_tripEntries_list B (tripEntries_query tripId userId) w1 of
               (Inr rows, w2) \<Rightarrow> (Inr rows, w2)
             | (Inl err, w2) \<Rightarrow> (Inr (fallbackTripEntries tripId), console_log query_failed w2))
          else (Inr (fallbackTripEntries tripId), w1))"

definition getPackingItems ::
  "'r blink \<Rightarrow> string \<Rightarrow> string \<Rightarrow> 'r world \<Rightarrow> (exn + PackingItem list) \<times> 'r world" where
  "getPackingItems B tripId userId w =
     (case checkDatabaseAvailability B w of
        (Inl err, w1) \<Rightarrow> (Inl err, w1)
      | (Inr isAvailable, w1) \<Rightarrow>
          if isAvailable then
            (case call_packingItems_list B (packingItems_query tripId userId) w1 of
               (Inr rows, w2) \<Rightarrow> (Inr rows, w2)
             | (Inl err, w2) \<Rightarrow> (Inr (fallbackPackingItems tripId), console_log query_failed w2))
          else (Inr (fallbackPackingItems tripId), w1))"

text \<open>
  The operations of the service, and a run of any sequence of them from a process
  state; only the state is kept, since the results have different types.
\<close>

datatype db_op =
    CheckDatabaseAvailability
  | GetTrips string
  | GetTripEntries string string
  | GetPackingItems string string

fun exec_op :: "'r blink \<Rightarrow> db_op \<Rightarrow> 'r world \<Rightarrow> 'r world" where
  "exec_op B CheckDatabaseAvailability w = snd (checkDatabaseAvailability B w)"
| "exec_op B (GetTrips userId) w = snd (getTrips B userId w)"
| "exec_op B (GetTripEntries tripId userId) w = snd (getTripEntries B tripId userId w)"
| "exec_op B (GetPackingItems tripId userId) w = snd (getPackingItems B tripId userId w)"

fun exec_ops :: "'r blink \<Rightarrow> db_op list \<Rightarrow> 'r world \<Rightarrow> 'r world" where
  "exec_ops B [] w = w"
| "exec_ops B (operation # rest) w = exec_ops B rest (exec_op B operation w)"

text \<open>
  A client whose every call throws, and a process whose flag has been set to \<open>false\<close>:
  the concrete inputs of the evaluations below.
\<close>

definition offline_blink :: "unit blink" where
  "offline_blink =
     \<lparr> auth_me = (\<lambda>r. (Inl (Exn ''offline''), r)),
       trips_list = (\<lambda>q r. (Inl (Exn ''offline''), r)),
       tripEntries_list = (\<lambda>q r. (Inl (Exn ''offline''), r)),
       packingItems_list = (\<lambda>q r. (Inl (Exn ''offline''), r)) \<rparr>"

definition unavailable_world :: "unit world" where
  "unavailable_world =
     \<lparr> isDatabaseAvailable = Some False, remote = (), requests = [], console = [] \<rparr>"

definition available_world :: "unit world" where
  "available_world =
     \<lparr> isDatabaseAvailable = Some True, remote = (), requests = [], console = [] \<rparr>"

section \<open>Dates of the platform\<close>

text \<open>
  A JavaScript \<open>Date\<close> holds a time value: a whole number of milliseconds since
  1970-01-01T00:00:00Z, or \<open>NaN\<close> (an invalid date). The relational operators convert
  each \<open>Date\<close> to its time value and are false as soon as one side is \<open>NaN\<close>.
\<close>

datatype js_date = Invalid | Time int

fun js_lt :: "js_date \<Rightarrow> js_date \<Rightarrow> bool" where
  "js_lt (Time a) (Time b) = (a < b)"
| "js_lt _ _ = False"

fun js_le :: "js_date \<Rightarrow> js_date \<Rightarrow> bool" where
  "js_le (Time a) (Time b) = (a \<le> b)"
| "js_le _ _ = False"

fun js_ge :: "js_date \<Rightarrow> js_date \<Rightarrow> bool" where
  "js_ge (Time a) (Time b) = (a \<ge> b)"
| "js_ge _ _ = False"

text \<open>
  The day number of a calendar date, by the formulas of the language standard
  (\<open>DayFromYear\<close>, \<open>InLeapYear\<close>, the days before each month), and the time value of
  its midnight in UTC.
\<close>

definition msPerDay :: int where
  "msPerDay = 86400000"

definition DayFromYear :: "int \<Rightarrow> int" where
  "DayFromYear y = 365 * (y - 1970) + (y - 1969) div 4 - (y - 1901) div 100 + (y - 1601) div 400"

definition InLeapYear :: "int \<Rightarrow> bool" where
  "InLeapYear y = (y mod 4 = 0 \<and> (y mod 100 \<noteq> 0 \<or> y mod 400 = 0))"

definition DaysInMonth :: "int \<Rightarrow> int \<Rightarrow> int" where
  "DaysInMonth y m =
     (if m = 2 then (if InLeapYear y then 29 else 28)
      else if m = 4 \<or> m = 6 \<or> m = 9 \<or> m = 11 then 30 else 31)"

definition DaysBeforeMonth :: "int \<Rightarrow> int \<Rightarrow> int" where
  "DaysBeforeMonth y m = (\<Sum>k \<leftarrow> [1 ..< nat m]. DaysInMonth y (int k))"

definition utc_midnight :: "int \<Rightarrow> int \<Rightarrow> int \<Rightarrow> int" where
  "utc_midnight y m d = (DayFromYear y + DaysBeforeMonth y m + (d - 1)) * msPerDay"

text \<open>
  \<open>new Date(s)\<close> for a date string of the form \<open>YYYY-MM-DD\<close>, the form of every
  \<open>startDate\<close>, \<open>endDate\<close> and \<open>date\<close> this program writes
  (\<open>toISOString().split('T')[0]\<close>) and of the seed records: the standard reads the
  date-only form as midnight UTC of that day. \<open>Date_iso\<close> gives that time value for a
  calendar date in this form and \<open>Invalid\<close> for every other string; on other strings
  engines differ, and nothing below evaluates \<open>Date_iso\<close> on one. The functions that
  call \<open>new Date(s)\<close> take the constructor as their first argument.
\<close>

definition digit :: "char \<Rightarrow> int option" where
  "digit c = (if 48 \<le> (of_char c :: nat) \<and> (of_char c :: nat) \<le> 57
              then Some (int (of_char c) - 48) else None)"

fun number :: "int \<Rightarrow> string \<Rightarrow> int option" where
  "number acc [] = Some acc"
| "number acc (c # cs) = (case digit c of None \<Rightarrow> None | Some v \<Rightarrow> number (10 * acc + v) cs)"

definition Date_iso :: "string \<Rightarrow> js_date" where
  "Date_iso s =
     (if length s = 10 \<and> s ! 4 = CHR ''-'' \<and> s ! 7 = CHR ''-'' then
        (case (number 0 (take 4 s), number 0 (take 2 (drop 5 s)), number 0 (drop 8 s)) of
           (Some y, Some m, Some d) \<Rightarrow>
             if 1 \<le> m \<and> m \<le> 12 \<and> 1 \<le> d \<and> d \<le> DaysInMonth y m
             then Time (utc_midnight y m d) else Invalid
         | _ \<Rightarrow> Invalid)
      else Invalid)"

section \<open>Dashboard: getTripStatus\<close>

text \<open>
  \<open>today = new Date()\<close> is the current instant, the argument \<open>now\<close> in milliseconds
  since the epoch; \<open>start\<close> and \<open>end\<close> are \<open>new Date(startDate)\<close> and
  \<open>new Date(endDate)\<close>.
\<close>

definition getTripStatus :: "(string \<Rightarrow> js_date) \<Rightarrow> int \<Rightarrow> string \<Rightarrow> string \<Rightarrow> string" where
  "getTripStatus new_Date now startDate endDate =
     (let today = Time now;
          start = new_Date startDate;
          end' = new_Date endDate
      in if js_lt today start then ''upcoming''
         else if js_ge today start \<and> js_le today end' then ''active''
         else ''completed'')"


section \<open>TripDetails: groupEntriesByDate\<close>

text \<open>
  \<open>groups\<close> is a plain object used as a dictionary from date string to array. It is
  modelled by its own properties in the order in which \<open>Object.keys\<close> and \<open>for-in\<close>
  enumerate them: first the keys that are array indices (the decimal form of an integer
  from \<open>0\<close> to \<open>2^32 - 2\<close>) in ascending numeric order, then every other string key in
  order of creation. A read \<open>groups[date]\<close> of a key that is not an own property goes on
  to \<open>Object.prototype\<close>, whose properties are listed in \<open>Object_prototype_keys\<close>; each
  of them is a function or an object, hence truthy, and none has a \<open>push\<close> method.
\<close>

type_synonym groups = "(string \<times> TripEntry list) list"

definition Object_prototype_keys :: "string list" where
  "Object_prototype_keys =
     [''constructor'', ''__defineGetter__'', ''__defineSetter__'', ''hasOwnProperty'',
      ''__lookupGetter__'', ''__lookupSetter__'', ''isPrototypeOf'', ''propertyIsEnumerable'',
      ''toString'', ''valueOf'', ''__proto__'', ''toLocaleString'']"

definition is_array_index :: "string \<Rightarrow> bool" where
  "is_array_index s =
     (case s of
        [] \<Rightarrow> False
      | c # cs \<Rightarrow>
          (case number 0 s of
             None \<Rightarrow> False
           | Some n \<Rightarrow> (c \<noteq> CHR ''0'' \<or> cs = []) \<and> n < 4294967295))"

definition index_value :: "string \<Rightarrow> int" where
  "index_value s = (case number 0 s of Some n \<Rightarrow> n | None \<Rightarrow> 0)"

datatype prop_value = Undefined | OwnArray "TripEntry list" | Inherited

definition get_prop :: "groups \<Rightarrow> string \<Rightarrow> prop_value" where
  "get_prop g k =
     (case map_of g k of
        Some es \<Rightarrow> OwnArray es
      | None \<Rightarrow> if k \<in> set Object_prototype_keys then Inherited else Undefined)"

text \<open>Creating the own property \<open>k\<close>: at its place in the enumeration order.\<close>

fun create_index_prop :: "string \<Rightarrow> TripEntry list \<Rightarrow> groups \<Rightarrow> groups" where
  "create_index_prop k v [] = [(k, v)]"
| "create_index_prop k v ((k', v') # rest) =
     (if is_array_index k' \<and> index_value k' < index_value k
      then (k', v') # create_index_prop k v rest
      else (k, v) # (k', v') # rest)"

definition create_prop :: "string \<Rightarrow> TripEntry list \<Rightarrow> groups \<Rightarrow> groups" where
  "create_prop k v g = (if is_array_index k then create_index_prop k v g else g @ [(k, v)])"

text \<open>Writing the own property \<open>k\<close> that exists: its place is kept.\<close>

definition write_prop :: "string \<Rightarrow> TripEntry list \<Rightarrow> groups \<Rightarrow> groups" where
  "write_prop k v g = map (\<lambda>(k', v'). if k' = k then (k', v) else (k', v')) g"

text \<open>
  The callback of \<open>reduce\<close>:
  \<^verbatim>\<open>if (!groups[date]) { groups[date] = [] }  groups[date].push(entry)\<close>.
  The \<open>push\<close> on an inherited value throws a \<open>TypeError\<close>, which \<open>reduce\<close> lets through.
\<close>

definition group_step :: "groups \<Rightarrow> TripEntry \<Rightarrow> exn + groups" where
  "group_step g entry =
     (let date = e_date entry;
          g1 = (case get_prop g date of
                  Undefined \<Rightarrow> create_prop date [] g
                | _ \<Rightarrow> g)
      in case get_prop g1 date of
           OwnArray es \<Rightarrow> Inr (write_prop date (es @ [entry]) g1)
         | _ \<Rightarrow> Inl (Exn ''TypeError: groups[date].push is not a function''))"

fun reduce_entries :: "groups \<Rightarrow> TripEntry list \<Rightarrow> exn + groups" where
  "reduce_entries g [] = Inr g"
| "reduce_entries g (entry # rest) =
     (case group_step g entry of
        Inl err \<Rightarrow> Inl err
      | Inr g' \<Rightarrow> reduce_entries g' rest)"

definition groupEntriesByDate :: "TripEntry list \<Rightarrow> exn + groups" where
  "groupEntriesByDate entries = reduce_entries [] entries"

text \<open>The distinct elements of a list, in the order of their first occurrence.\<close>

definition first_occurrences :: "'a list \<Rightarrow> 'a list" where
  "first_occurrences xs = rev (remdups (rev xs))"

text \<open>An entry with the given id, date and start time, for the evaluations below.\<close>

definition sample_entry :: "string \<Rightarrow> string \<Rightarrow> string option \<Rightarrow> TripEntry" where
  "sample_entry ident date startTime =
     \<lparr> e_id = ident, e_tripId = ''1'', e_userId = ''mock-user'', e_title = ''Entry'',
       e_description = None, e_location = None, e_address = None,
       e_date = date, e_startTime = startTime, e_endTime = None,
       e_category = ''activity'', e_createdAt = ''2024-01-15T10:00:00Z'',
       e_updatedAt = None \<rparr>"

section \<open>TripDetails and CalendarView: the sort of a day's entries\<close>

text \<open>
  \<^verbatim>\<open>.sort((a, b) => (a.startTime || '').localeCompare(b.startTime || ''))\<close>.
  \<open>or_empty v\<close> is \<open>v || ''\<close>: the empty string for a missing value and for the
  empty string, which is falsy; \<open>startTime_or_empty a\<close> is \<open>a.startTime || ''\<close>.
  \<open>Array.prototype.sort\<close> with a consistent comparator is a stable sort: \<open>Array_sort\<close> inserts each element, from the
  last to the first, before the first element it does not compare greater than.
  \<open>String.prototype.localeCompare\<close> belongs to the platform and is the first argument of
  \<open>sort_by_startTime\<close>.
\<close>

definition or_empty :: "string option \<Rightarrow> string" where
  "or_empty v = (case v of None \<Rightarrow> '''' | Some t \<Rightarrow> if t = '''' then '''' else t)"









text \<open>
  The own keys of \<open>groups\<close> after the entries of the dates \<open>ds\<close> have been grouped, in
  enumeration order: each date that is not yet a key is added, an array index at its
  numeric place among the array indices at the front, any other string at the end.
  \<open>groups_in_key_order\<close> is the mapping with these keys in which each key holds the
  entries of that date in their input order.
\<close>

fun insert_index_key :: "string \<Rightarrow> string list \<Rightarrow> string list" where
  "insert_index_key k [] = [k]"
| "insert_index_key k (k' # rest) =
     (if is_array_index k' \<and> index_value k' < index_value k
      then k' # insert_index_key k rest
      else k # k' # rest)"

definition add_key :: "string list \<Rightarrow> string \<Rightarrow> string list" where
  "add_key ks d =
     (if d \<in> set ks then ks
      else if is_array_index d then insert_index_key d ks
      else ks @ [d])"

definition own_keys :: "string list \<Rightarrow> string list" where
  "own_keys ds = foldl add_key [] ds"

definition groups_in_key_order :: "TripEntry list \<Rightarrow> groups" where
  "groups_in_key_order entries =
     map (\<lambda>d. (d, filter (\<lambda>entry. e_date entry = d) entries)) (own_keys (map e_date entries))"


section \<open>CreateTripDialog and CreateEntryDialog\<close>

text \<open>
  The values of the trip form as the resolver receives them: a date field is
  \<open>undefined\<close> (\<open>None\<close>) until a day is picked. \<open>TripFormData\<close> is what the schema
  infers: both dates are valid.
\<close>

record trip_form =
  f_title :: string
  f_description :: "string option"
  f_destination :: string
  f_startDate :: "js_date option"
  f_endDate :: "js_date option"

record TripFormData =
  d_title :: string
  d_description :: "string option"
  d_destination :: string
  d_startDate :: int
  d_endDate :: int

text \<open>An issue of the schema: the path of the field and the message.\<close>

type_synonym issue = "string \<times> string"

definition min1 :: "string \<Rightarrow> string \<Rightarrow> string \<Rightarrow> issue list" where
  "min1 path message v = (if length v < 1 then [(path, message)] else [])"

definition date_field :: "string \<Rightarrow> string \<Rightarrow> js_date option \<Rightarrow> issue list" where
  "date_field path required_error v =
     (case v of
        None \<Rightarrow> [(path, required_error)]
      | Some Invalid \<Rightarrow> [(path, ''Invalid date'')]
      | Some (Time _) \<Rightarrow> [])"

text \<open>
  \<open>tripSchema\<close>: the object schema checks the fields in the order of its shape; the
  refinement \<open>data.endDate >= data.startDate\<close> runs when both dates have parsed, and adds
  its issue at the path \<open>endDate\<close>. The parse succeeds when there is no issue.
\<close>

definition tripSchema :: "trip_form \<Rightarrow> issue list + TripFormData" where
  "tripSchema form =
     (let fields =
            min1 ''title'' ''Title is required'' (f_title form) @
            min1 ''destination'' ''Destination is required'' (f_destination form) @
            date_field ''startDate'' ''Start date is required'' (f_startDate form) @
            date_field ''endDate'' ''End date is required'' (f_endDate form)
      in case (f_startDate form, f_endDate form) of
           (Some (Time startDate), Some (Time endDate)) \<Rightarrow>
             (let issues = fields @
                    (if js_ge (Time endDate) (Time startDate) then []
                     else [(''endDate'', ''End date must be after start date'')])
              in if issues = [] then
                   Inr \<lparr> d_title = f_title form, d_description = f_description form,
                         d_destination = f_destination form,
                         d_startDate = startDate, d_endDate = endDate \<rparr>
                 else Inl issues)
         | _ \<Rightarrow> Inl fields)"

text \<open>
  What a run of a submit handler does, in order. \<open>OnCreated\<close> is the call of the
  optional callback prop (\<open>onTripCreated\<close>, \<open>onEntryCreated\<close>).
\<close>

record toast =
  toast_title :: string
  toast_description :: string
  toast_variant :: "string option"

datatype ui_event =
    SetLoading bool
  | AuthMe
  | TripsCreate Trip
  | TripEntriesCreate TripEntry
  | ShowToast toast
  | ConsoleLog string
  | ConsoleError string
  | FormReset
  | OnOpenChange bool
  | OnCreated

text \<open>
  What the handler reads from outside: the outcome of \<open>blink.auth.me()\<close> and of the
  \<open>create\<close> calls, \<open>Date.now()\<close>, the nine characters
  \<open>Math.random().toString(36).substr(2, 9)\<close>, the two \<open>new Date().toISOString()\<close> of
  \<open>createdAt\<close> and \<open>updatedAt\<close>, \<open>toISOString\<close> on a valid date, and the callback prop
  with the outcome of calling it (\<open>None\<close> when the prop is not given).
\<close>

record submit_env =
  env_me :: "exn + user"
  env_trips_create :: "Trip \<Rightarrow> exn + unit"
  env_tripEntries_create :: "TripEntry \<Rightarrow> exn + unit"
  env_Date_now :: nat
  env_random :: string
  env_createdAt :: string
  env_updatedAt :: string
  env_toISOString :: "int \<Rightarrow> string"
  env_onCreated :: "(exn + unit) option"

fun decimal :: "nat \<Rightarrow> string" where
  "decimal n =
     (if n < 10 then [char_of (48 + n)] else decimal (n div 10) @ [char_of (48 + n mod 10)])"

declare decimal.simps [simp del]

definition date_part :: "string \<Rightarrow> string" where
  "date_part s = takeWhile (\<lambda>c. c \<noteq> CHR ''T'') s"

definition tripData :: "submit_env \<Rightarrow> user \<Rightarrow> TripFormData \<Rightarrow> Trip" where
  "tripData env usr data =
     \<lparr> t_id = ''trip_'' @ decimal (env_Date_now env) @ ''_'' @ env_random env,
       t_userId = u_id usr,
       t_title = d_title data,
       t_description = Some (or_empty (d_description data)),
       t_destination = d_destination data,
       t_startDate = date_part (env_toISOString env (d_startDate data)),
       t_endDate = date_part (env_toISOString env (d_endDate data)),
       t_createdAt = env_createdAt env,
       t_updatedAt = Some (env_updatedAt env) \<rparr>"

definition trip_saved_toast :: "TripFormData \<Rightarrow> toast" where
  "trip_saved_toast data =
     \<lparr> toast_title = ''Trip created successfully!'',
       toast_description = ''Your trip to '' @ d_destination data @ '' has been created.'',
       toast_variant = None \<rparr>"

definition trip_local_toast :: "TripFormData \<Rightarrow> toast" where
  "trip_local_toast data =
     \<lparr> toast_title = ''Trip created!'',
       toast_description =
         ''Your trip to '' @ d_destination data @ '' has been created (database not available).'',
       toast_variant = None \<rparr>"

definition trip_error_toast :: toast where
  "trip_error_toast =
     \<lparr> toast_title = ''Error'',
       toast_description = ''Failed to create trip. Please try again.'',
       toast_variant = Some ''destructive'' \<rparr>"

text \<open>
  \<open>CreateTripDialog.onSubmit\<close>. The outer \<open>try\<close> holds everything up to the callback;
  its \<open>catch\<close> logs and shows the error toast; \<open>finally\<close> clears the loading flag. The
  inner \<open>try\<close> holds the write and the first toast, its \<open>catch\<close> the second toast.
\<close>

definition onSubmit :: "submit_env \<Rightarrow> TripFormData \<Rightarrow> ui_event list" where
  "onSubmit env data =
     [SetLoading True, AuthMe] @
     (case env_me env of
        Inl error \<Rightarrow> [ConsoleError ''Failed to create trip:'', ShowToast trip_error_toast]
      | Inr usr \<Rightarrow>
          [TripsCreate (tripData env usr data)] @
          (case env_trips_create env (tripData env usr data) of
             Inr _ \<Rightarrow> [ShowToast (trip_saved_toast data)]
           | Inl dbError \<Rightarrow>
               [ConsoleLog ''Database not available, trip created locally:'',
                ShowToast (trip_local_toast data)]) @
          [FormReset, OnOpenChange False] @
          (case env_onCreated env of
             None \<Rightarrow> []
           | Some (Inr _) \<Rightarrow> [OnCreated]
           | Some (Inl error) \<Rightarrow>
               [OnCreated, ConsoleError ''Failed to create trip:'', ShowToast trip_error_toast])) @
     [SetLoading False]"

text \<open>
  \<open>form.handleSubmit(onSubmit)\<close>: the resolver validates the form values with
  \<open>tripSchema\<close>; on issues they become the form's errors and \<open>onSubmit\<close> is not called;
  otherwise \<open>onSubmit\<close> runs on the parsed data. The result is the errors and the
  events of the run.
\<close>

definition handleSubmit :: "submit_env \<Rightarrow> trip_form \<Rightarrow> issue list \<times> ui_event list" where
  "handleSubmit env form =
     (case tripSchema form of
        Inl issues \<Rightarrow> (issues, [])
      | Inr data \<Rightarrow> ([], onSubmit env data))"

text \<open>\<open>CreateEntryDialog\<close>: the data its schema infers, and its \<open>onSubmit\<close>.\<close>

record EntryFormData =
  d_entry_title :: string
  d_entry_description :: "string option"
  d_entry_location :: "string option"
  d_entry_address :: "string option"
  d_entry_date :: int
  d_entry_startTime :: "string option"
  d_entry_endTime :: "string option"
  d_entry_category :: string

definition entryData :: "submit_env \<Rightarrow> string \<Rightarrow> user \<Rightarrow> EntryFormData \<Rightarrow> TripEntry" where
  "entryData env tripId usr data =
     \<lparr> e_id = ''entry_'' @ decimal (env_Date_now env) @ ''_'' @ env_random env,
       e_tripId = tripId,
       e_userId = u_id usr,
       e_title = d_entry_title data,
       e_description = Some (or_empty (d_entry_description data)),
       e_location = Some (or_empty (d_entry_location data)),
       e_address = Some (or_empty (d_entry_address data)),
       e_date = date_part (env_toISOString env (d_entry_date data)),
       e_startTime = Some (or_empty (d_entry_startTime data)),
       e_endTime = Some (or_empty (d_entry_endTime data)),
       e_category = d_entry_category data,
       e_createdAt = env_createdAt env,
       e_updatedAt = Some (env_updatedAt env) \<rparr>"

definition entry_saved_toast :: "EntryFormData \<Rightarrow> toast" where
  "entry_saved_toast data =
     \<lparr> toast_title = ''Entry added successfully!'',
       toast_description = d_entry_title data @ '' has been added to your itinerary.'',
       toast_variant = None \<rparr>"

definition entry_local_toast :: "EntryFormData \<Rightarrow> toast" where
  "entry_local_toast data =
     \<lparr> toast_title = ''Entry added!'',
       toast_description = d_entry_title data @ '' has been added (database not available).'',
       toast_variant = None \<rparr>"

definition entry_error_toast :: toast where
  "entry_error_toast =
     \<lparr> toast_title = ''Error'',
       toast_description = ''Failed to create entry. Please try again.'',
       toast_variant = Some ''destructive'' \<rparr>"

definition onSubmit_entry :: "submit_env \<Rightarrow> string \<Rightarrow> EntryFormData \<Rightarrow> ui_event list" where
  "onSubmit_entry env tripId data =
     [SetLoading True, AuthMe] @
     (case env_me env of
        Inl error \<Rightarrow> [ConsoleError ''Failed to create entry:'', ShowToast entry_error_toast]
      | Inr usr \<Rightarrow>
          [TripEntriesCreate (entryData env tripId usr data)] @
          (case env_tripEntries_create env (entryData env tripId usr data) of
             Inr _ \<Rightarrow> [ShowToast (entry_saved_toast data)]
           | Inl dbError \<Rightarrow>
               [ConsoleLog ''Database not available, entry created locally:'',
                ShowToast (entry_local_toast data)]) @
          [FormReset, OnOpenChange False] @
          (case env_onCreated env of
             None \<Rightarrow> []
           | Some (Inr _) \<Rightarrow> [OnCreated]
           | Some (Inl error) \<Rightarrow>
               [OnCreated, ConsoleError ''Failed to create entry:'', ShowToast entry_error_toast])) @
     [SetLoading False]"

text \<open>
  Concrete inputs of the evaluations below: a form with the dates of the claim, and an
  environment in which the user is signed in and every write throws.
\<close>

definition june_form :: "int \<Rightarrow> int \<Rightarrow> trip_form" where
  "june_form startDay endDay =
     \<lparr> f_title = ''European Summer'', f_description = Some '''',
       f_destination = ''Paris'',
       f_startDate = Some (Time (utc_midnight 2024 6 startDay)),
       f_endDate = Some (Time (utc_midnight 2024 6 endDay)) \<rparr>"

definition write_fails_env :: submit_env where
  "write_fails_env =
     \<lparr> env_me = Inr \<lparr> u_id = ''alice'', u_email = ''alice@example.org'' \<rparr>,
       env_trips_create = (\<lambda>row. Inl (Exn ''offline'')),
       env_tripEntries_create = (\<lambda>row. Inl (Exn ''offline'')),
       env_Date_now = 1718000000000,
       env_random = ''k3j9x0a1b'',
       env_createdAt = ''2024-06-10T06:13:20.000Z'',
       env_updatedAt = ''2024-06-10T06:13:20.000Z'',
       env_toISOString = (\<lambda>t. ''2024-06-10T00:00:00.000Z''),
       env_onCreated = None \<rparr>"

definition sample_entry_data :: EntryFormData where
  "sample_entry_data =
     \<lparr> d_entry_title = ''Louvre'', d_entry_description = Some '''',
       d_entry_location = Some '''', d_entry_address = Some '''',
       d_entry_date = utc_midnight 2024 6 10,
       d_entry_startTime = Some ''10:00'', d_entry_endTime = Some '''',
       d_entry_category = ''activity'' \<rparr>"


section \<open>PackingList: getPackingProgress\<close>

text \<open>
  The item of the packing-list page (its own interface \<open>PackingItem\<close>, the component
  format into which the loaded records are converted).
\<close>

record PackingListItem =
  l_id :: string
  l_itemName :: string
  l_category :: string
  l_isPacked :: bool
  l_quantity :: int
  l_notes :: "string option"

text \<open>
  The arithmetic of \<open>(packedItems / items.length) * 100\<close> is that of IEEE 754 binary64
  numbers: each of the two operations returns the exact result rounded to the nearest
  number with a 53-bit significand, ties to the even significand. Numbers are modelled
  by the rationals they denote. \<open>expo x\<close> is the exponent \<open>e\<close> with
  \<open>2^e \<le> x < 2^(e+1)\<close> of a positive \<open>x\<close>, and \<open>fl x\<close> rounds \<open>x\<close> to a multiple of
  \<open>2^(e-52)\<close>. Overflow and subnormal numbers are left out: the values that occur
  here lie between \<open>2^-32\<close> and \<open>100\<close>, or are \<open>0\<close>.
\<close>

fun bit_length :: "nat \<Rightarrow> nat" where
  "bit_length n = (if n = 0 then 0 else Suc (bit_length (n div 2)))"

declare bit_length.simps [simp del]

definition pow2 :: "int \<Rightarrow> rat" where
  "pow2 e = (if 0 \<le> e then 2 ^ nat e else 1 / 2 ^ nat (- e))"

definition expo :: "rat \<Rightarrow> int" where
  "expo x =
     (if 1 \<le> x then int (bit_length (nat \<lfloor>x\<rfloor>)) - 1
      else - int (bit_length (nat (\<lceil>1 / x\<rceil> - 1))))"

definition round_half_even :: "rat \<Rightarrow> int" where
  "round_half_even y =
     (let f = \<lfloor>y\<rfloor>; r = y - of_int f
      in if r < 1 / 2 then f
         else if 1 / 2 < r then f + 1
         else if even f then f else f + 1)"

definition fl :: "rat \<Rightarrow> rat" where
  "fl x =
     (if x = 0 then 0
      else if x < 0 then
        - (of_int (round_half_even (- x / pow2 (expo (- x) - 52))) * pow2 (expo (- x) - 52))
      else of_int (round_half_even (x / pow2 (expo x - 52))) * pow2 (expo x - 52))"

text \<open>
  \<open>Math.round\<close>: the integer closest to its argument, the larger one at a tie.
\<close>

definition Math_round :: "rat \<Rightarrow> int" where
  "Math_round v = \<lfloor>v + 1 / 2\<rfloor>"

definition getPackingProgress :: "PackingListItem list \<Rightarrow> int" where
  "getPackingProgress items =
     (if length items = 0 then 0
      else
        let packedItems = length (filter l_isPacked items)
        in Math_round (fl (fl (of_nat packedItems / of_nat (length items)) * 100)))"

text \<open>A list of \<open>packed\<close> packed items followed by \<open>unpacked\<close> items not packed.\<close>

definition list_item :: "bool \<Rightarrow> PackingListItem" where
  "list_item packed =
     \<lparr> l_id = ''item'', l_itemName = ''Socks'', l_category = ''clothing'',
       l_isPacked = packed, l_quantity = 1, l_notes = None \<rparr>"

definition packing_list :: "nat \<Rightarrow> nat \<Rightarrow> PackingListItem list" where
  "packing_list packed unpacked =
     replicate packed (list_item True) @ replicate unpacked (list_item False)"


section \<open>The memoized availability flag\<close>

lemma check_memo:
  "isDatabaseAvailable w = Some b \<Longrightarrow> checkDatabaseAvailability B w = (Inr b, w)"
  by (simp add: checkDatabaseAvailability_def)

lemma check_resolves:
  "\<exists>b w'. checkDatabaseAvailability B w = (Inr b, w') \<and> isDatabaseAvailable w' = Some b"
  by (auto simp: checkDatabaseAvailability_def call_auth_me_def call_trips_list_def console_log_def
      split: option.splits prod.splits sum.splits)

lemma call_trips_list_flag:
  "isDatabaseAvailable (snd (call_trips_list B q w)) = isDatabaseAvailable w"
  by (simp add: call_trips_list_def split: prod.splits)

lemma call_tripEntries_list_flag:
  "isDatabaseAvailable (snd (call_tripEntries_list B q w)) = isDatabaseAvailable w"
  by (simp add: call_tripEntries_list_def split: prod.splits)

lemma call_packingItems_list_flag:
  "isDatabaseAvailable (snd (call_packingItems_list B q w)) = isDatabaseAvailable w"
  by (simp add: call_packingItems_list_def split: prod.splits)

lemma console_log_flag [simp]:
  "isDatabaseAvailable (console_log line w) = isDatabaseAvailable w"
  by (simp add: console_log_def)

lemma getTrips_flag:
  assumes "isDatabaseAvailable w = Some b"
  shows "isDatabaseAvailable (snd (getTrips B userId w)) = Some b"
  using assms call_trips_list_flag [of B "trips_query userId" w] check_memo [of w b B]
  by (auto simp: getTrips_def split: prod.splits sum.splits)

lemma getTripEntries_flag:
  assumes "isDatabaseAvailable w = Some b"
  shows "isDatabaseAvailable (snd (getTripEntries B tripId userId w)) = Some b"
  using assms call_tripEntries_list_flag [of B "tripEntries_query tripId userId" w]
    check_memo [of w b B]
  by (auto simp: getTripEntries_def split: prod.splits sum.splits)

lemma getPackingItems_flag:
  assumes "isDatabaseAvailable w = Some b"
  shows "isDatabaseAvailable (snd (getPackingItems B tripId userId w)) = Some b"
  using assms call_packingItems_list_flag [of B "packingItems_query tripId userId" w]
    check_memo [of w b B]
  by (auto simp: getPackingItems_def split: prod.splits sum.splits)

lemma exec_op_flag:
  "isDatabaseAvailable w = Some b \<Longrightarrow> isDatabaseAvailable (exec_op B operation w) = Some b"
  using check_memo [of w b B]
  by (cases operation)
    (simp_all add: getTrips_flag getTripEntries_flag getPackingItems_flag)

lemma exec_ops_flag:
  "isDatabaseAvailable w = Some b \<Longrightarrow> isDatabaseAvailable (exec_ops B ops w) = Some b"
  by (induction ops arbitrary: w) (simp_all add: exec_op_flag)

lemma unavailable_getTrips:
  "isDatabaseAvailable w = Some False \<Longrightarrow> getTrips B userId w = (Inr (fallbackTrips userId), w)"
  using check_memo [of w False B] by (simp add: getTrips_def)

lemma unavailable_getTripEntries:
  "isDatabaseAvailable w = Some False \<Longrightarrow>
   getTripEntries B tripId userId w = (Inr (fallbackTripEntries tripId), w)"
  using check_memo [of w False B] by (simp add: getTripEntries_def)

lemma unavailable_getPackingItems:
  "isDatabaseAvailable w = Some False \<Longrightarrow>
   getPackingItems B tripId userId w = (Inr (fallbackPackingItems tripId), w)"
  using check_memo [of w False B] by (simp add: getPackingItems_def)

lemma available_getTrips_requests:
  "isDatabaseAvailable w = Some True \<Longrightarrow>
   requests (snd (getTrips B userId w)) = requests w @ [ReqTripsList (trips_query userId)]"
  using check_memo [of w True B]
  by (auto simp: getTrips_def call_trips_list_def console_log_def split: prod.splits sum.splits)

lemma available_getTrips_throw:
  "isDatabaseAvailable w = Some True \<Longrightarrow>
   trips_list B (trips_query userId) (remote w) = (Inl err, r') \<Longrightarrow>
   fst (getTrips B userId w) = Inr (fallbackTrips userId)"
  using check_memo [of w True B]
  by (simp add: getTrips_def call_trips_list_def)

lemma available_getTripEntries_throw:
  "isDatabaseAvailable w = Some True \<Longrightarrow>
   tripEntries_list B (tripEntries_query tripId userId) (remote w) = (Inl err, r') \<Longrightarrow>
   fst (getTripEntries B tripId userId w) = Inr (fallbackTripEntries tripId)"
  using check_memo [of w True B]
  by (simp add: getTripEntries_def call_tripEntries_list_def)

lemma available_getPackingItems_throw:
  "isDatabaseAvailable w = Some True \<Longrightarrow>
   packingItems_list B (packingItems_query tripId userId) (remote w) = (Inl err, r') \<Longrightarrow>
   fst (getPackingItems B tripId userId w) = Inr (fallbackPackingItems tripId)"
  using check_memo [of w True B]
  by (simp add: getPackingItems_def call_packingItems_list_def)

lemma mock_entry_owner: "\<forall>entry \<in> set mockTripEntries. e_userId entry = ''mock-user''"
  by (simp add: mockTripEntries_def)

lemma mock_item_owner: "\<forall>item \<in> set mockPackingItems. p_userId item = ''mock-user''"
  by (simp add: mockPackingItems_def)

lemma unavailable_world_flag: "isDatabaseAvailable unavailable_world = Some False"
  by (simp add: unavailable_world_def)

lemma available_world_flag: "isDatabaseAvailable available_world = Some True"
  by (simp add: available_world_def)

text \<open>
  With the flag \<open>false\<close>, \<open>getTrips\<close> overwrites the owner of every seed trip with its
  argument (\<open>{ ...trip, userId }\<close>).
\<close>

lemma getTrips_fallback_owner:
  assumes "isDatabaseAvailable w = Some False"
  shows "fst (getTrips B userId w) = Inr (fallbackTrips userId) \<and>
         (\<forall>trip \<in> set (fallbackTrips userId). t_userId trip = userId)"
  using assms by (simp add: unavailable_getTrips fallbackTrips_def)

text \<open>
  Claim C1 at the calls of user \<open>'alice'\<close> for trip \<open>'1'\<close>, with the flag \<open>false\<close>:
  \<open>getTrips('alice')\<close> returns the three seed trips with the owner \<open>'alice'\<close>, as the
  claim says; \<open>getTripEntries('1', 'alice')\<close> returns the three seed entries and
  \<open>getPackingItems('1', 'alice')\<close> the three seed items, each still with the owner
  \<open>'mock-user'\<close>, where the claim says \<open>'alice'\<close>: these two methods filter the seed by
  \<open>tripId\<close> and leave out the overwrite that \<open>getTrips\<close> makes.
\<close>

theorem fallback_owner_not_overwritten:
  "isDatabaseAvailable unavailable_world = Some False \<and>
   fst (getTrips offline_blink ''alice'' unavailable_world) = Inr (fallbackTrips ''alice'') \<and>
   map t_userId (fallbackTrips ''alice'') = [''alice'', ''alice'', ''alice''] \<and>
   fst (getTripEntries offline_blink ''1'' ''alice'' unavailable_world) = Inr mockTripEntries \<and>
   map e_userId mockTripEntries = [''mock-user'', ''mock-user'', ''mock-user''] \<and>
   fst (getPackingItems offline_blink ''1'' ''alice'' unavailable_world) = Inr mockPackingItems \<and>
   map p_userId mockPackingItems = [''mock-user'', ''mock-user'', ''mock-user'']"
  by (simp add: unavailable_getTrips unavailable_getTripEntries unavailable_getPackingItems
      unavailable_world_def fallbackTrips_def fallbackTripEntries_def fallbackPackingItems_def
      mockTrips_def mockTripEntries_def mockPackingItems_def)

text \<open>
  Claim C2: once the flag is set to \<open>b\<close>, it is \<open>b\<close> after any sequence \<open>ops\<close> of later
  operations of the service; in the state reached, \<open>checkDatabaseAvailability\<close>
  returns \<open>b\<close> and leaves the whole state as it is, so it sends no request; when \<open>b\<close> is
  \<open>false\<close> each read returns its fallback data and sends no request; when \<open>b\<close> is
  \<open>true\<close> a read sends its real query and no probe, a query that throws makes that call
  return the static data, and the flag is still \<open>true\<close> after the read.
\<close>

theorem availability_flag_sticky:
  assumes "isDatabaseAvailable w = Some b"
  shows "isDatabaseAvailable (exec_ops B ops w) = Some b \<and>
         checkDatabaseAvailability B (exec_ops B ops w) = (Inr b, exec_ops B ops w) \<and>
         (\<not> b \<longrightarrow>
            getTrips B userId (exec_ops B ops w) = (Inr (fallbackTrips userId), exec_ops B ops w) \<and>
            getTripEntries B tripId userId (exec_ops B ops w) =
              (Inr (fallbackTripEntries tripId), exec_ops B ops w) \<and>
            getPackingItems B tripId userId (exec_ops B ops w) =
              (Inr (fallbackPackingItems tripId), exec_ops B ops w)) \<and>
         (b \<longrightarrow>
            requests (snd (getTrips B userId (exec_ops B ops w))) =
              requests (exec_ops B ops w) @ [ReqTripsList (trips_query userId)] \<and>
            (\<forall>err r'. trips_list B (trips_query userId) (remote (exec_ops B ops w)) = (Inl err, r') \<longrightarrow>
               fst (getTrips B userId (exec_ops B ops w)) = Inr (fallbackTrips userId)) \<and>
            (\<forall>err r'. tripEntries_list B (tripEntries_query tripId userId) (remote (exec_ops B ops w))
                 = (Inl err, r') \<longrightarrow>
               fst (getTripEntries B tripId userId (exec_ops B ops w)) =
                 Inr (fallbackTripEntries tripId)) \<and>
            (\<forall>err r'. packingItems_list B (packingItems_query tripId userId)
                 (remote (exec_ops B ops w)) = (Inl err, r') \<longrightarrow>
               fst (getPackingItems B tripId userId (exec_ops B ops w)) =
                 Inr (fallbackPackingItems tripId)) \<and>
            isDatabaseAvailable (snd (getTrips B userId (exec_ops B ops w))) = Some True \<and>
            isDatabaseAvailable (snd (getTripEntries B tripId userId (exec_ops B ops w))) = Some True \<and>
            isDatabaseAvailable (snd (getPackingItems B tripId userId (exec_ops B ops w))) = Some True)"
proof -
  let ?w = "exec_ops B ops w"
  have flag: "isDatabaseAvailable ?w = Some b"
    using assms by (rule exec_ops_flag)
  have memo: "checkDatabaseAvailability B ?w = (Inr b, ?w)"
    using flag by (rule check_memo)
  have down: ?thesis if "\<not> b"
    using that flag memo
    by (simp add: unavailable_getTrips unavailable_getTripEntries unavailable_getPackingItems)
  have up: ?thesis if "b"
  proof -
    from that flag have t: "isDatabaseAvailable ?w = Some True" by simp
    show ?thesis
      using that flag memo available_getTrips_requests [OF t]
        getTrips_flag [OF t] getTripEntries_flag [OF t] getPackingItems_flag [OF t]
        available_getTrips_throw [OF t] available_getTripEntries_throw [OF t]
        available_getPackingItems_throw [OF t]
      by simp
  qed
  from down up show ?thesis by (cases b) blast+
qed

text \<open>
  Claim C2 at two processes whose client throws at every call: one whose flag is
  \<open>false\<close>, after a \<open>getTrips\<close> and a \<open>checkDatabaseAvailability\<close>; one whose flag is
  \<open>true\<close>, after a \<open>getTripEntries\<close>, where the query of \<open>getTrips\<close> throws.
\<close>

theorem availability_flag_sticky_witness:
  "isDatabaseAvailable unavailable_world = Some False \<and>
   isDatabaseAvailable
     (exec_ops offline_blink [GetTrips ''alice'', CheckDatabaseAvailability] unavailable_world)
     = Some False \<and>
   fst (getTrips offline_blink ''alice''
     (exec_ops offline_blink [GetTrips ''alice'', CheckDatabaseAvailability] unavailable_world))
     = Inr (fallbackTrips ''alice'') \<and>
   isDatabaseAvailable available_world = Some True \<and>
   trips_list offline_blink (trips_query ''alice'')
     (remote (exec_ops offline_blink [GetTripEntries ''1'' ''alice''] available_world))
     = (Inl (Exn ''offline''), ()) \<and>
   fst (getTrips offline_blink ''alice''
     (exec_ops offline_blink [GetTripEntries ''1'' ''alice''] available_world))
     = Inr (fallbackTrips ''alice'') \<and>
   isDatabaseAvailable (snd (getTrips offline_blink ''alice''
     (exec_ops offline_blink [GetTripEntries ''1'' ''alice''] available_world))) = Some True"
proof -
  have d: "isDatabaseAvailable unavailable_world = Some False"
    by (simp add: unavailable_world_def)
  have u: "isDatabaseAvailable available_world = Some True"
    by (simp add: available_world_def)
  have t: "trips_list offline_blink q r = (Inl (Exn ''offline''), ())" for q r
    by (simp add: offline_blink_def)
  show ?thesis
    using d u t
      availability_flag_sticky [OF d, of offline_blink
        "[GetTrips ''alice'', CheckDatabaseAvailability]" "''alice''" "''1''"]
      availability_flag_sticky [OF u, of offline_blink
        "[GetTripEntries ''1'' ''alice'']" "''alice''" "''1''"]
    by simp
qed

text \<open>
  Claim C3: for every client, user id and process state, \<open>getTrips(userId)\<close> resolves
  (its outcome is \<open>Inr\<close>, never a rejection), and the list it resolves to is either the
  seed trips with every \<open>userId\<close> replaced by the argument, or the very list that the
  live query \<open>trips.list({where: {userId}, orderBy: {createdAt: 'desc'}})\<close> returned,
  the query being sent in the remote state that the availability check left.
\<close>

theorem getTrips_resolves_live_or_fallback:
  "\<exists>rows w'. getTrips B userId w = (Inr rows, w') \<and>
     (rows = map (\<lambda>trip. trip\<lparr>t_userId := userId\<rparr>) mockTrips \<or>
      fst (trips_list B (trips_query userId) (remote (snd (checkDatabaseAvailability B w)))) =
        Inr rows)"
proof -
  obtain b w1 where c: "checkDatabaseAvailability B w = (Inr b, w1)"
    using check_resolves [of B w] by blast
  show ?thesis
  proof (cases b)
    case False
    with c show ?thesis by (simp add: getTrips_def fallbackTrips_def)
  next
    case True
    obtain res r' where q: "trips_list B (trips_query userId) (remote w1) = (res, r')"
      by (cases "trips_list B (trips_query userId) (remote w1)")
    show ?thesis
      using c True q
      by (cases res) (simp_all add: getTrips_def call_trips_list_def fallbackTrips_def)
  qed
qed

text \<open>
  Claim C10: while the database is marked unavailable, \<open>getTripEntries\<close> and
  \<open>getPackingItems\<close> do not depend on their \<open>userId\<close> argument: for one \<open>tripId\<close> and any
  two user ids the two calls return the same list and leave the same state, and the
  list is the seed records of that \<open>tripId\<close>, unmodified.
\<close>

theorem fallback_reads_ignore_userId:
  assumes "isDatabaseAvailable w = Some False"
  shows "getTripEntries B tripId u1 w = getTripEntries B tripId u2 w \<and>
         getPackingItems B tripId u1 w = getPackingItems B tripId u2 w \<and>
         fst (getTripEntries B tripId u1 w) =
           Inr (filter (\<lambda>entry. e_tripId entry = tripId) mockTripEntries) \<and>
         fst (getPackingItems B tripId u1 w) =
           Inr (filter (\<lambda>item. p_tripId item = tripId) mockPackingItems)"
  using assms
  by (simp add: unavailable_getTripEntries unavailable_getPackingItems
      fallbackTripEntries_def fallbackPackingItems_def)

text \<open>Claim C10 at trip \<open>'1'\<close> for the users \<open>'alice'\<close> and \<open>'bob'\<close>.\<close>

theorem fallback_reads_ignore_userId_witness:
  "isDatabaseAvailable unavailable_world = Some False \<and>
   getTripEntries offline_blink ''1'' ''alice'' unavailable_world =
     getTripEntries offline_blink ''1'' ''bob'' unavailable_world \<and>
   getPackingItems offline_blink ''1'' ''alice'' unavailable_world =
     getPackingItems offline_blink ''1'' ''bob'' unavailable_world \<and>
   fst (getTripEntries offline_blink ''1'' ''alice'' unavailable_world) = Inr mockTripEntries \<and>
   fst (getPackingItems offline_blink ''1'' ''alice'' unavailable_world) = Inr mockPackingItems"
proof -
  have h: "isDatabaseAvailable unavailable_world = Some False"
    by (simp add: unavailable_world_def)
  have m: "filter (\<lambda>entry. e_tripId entry = ''1'') mockTripEntries = mockTripEntries"
    by (simp add: mockTripEntries_def)
  have p: "filter (\<lambda>item. p_tripId item = ''1'') mockPackingItems = mockPackingItems"
    by (simp add: mockPackingItems_def)
  from fallback_reads_ignore_userId [OF h, of offline_blink "''1''" "''alice''" "''bob''"] h
  show ?thesis
    unfolding m p by blast
qed


section \<open>Trip status\<close>

lemma Date_iso_2024_03_15: "Date_iso ''2024-03-15'' = Time 1710460800000"
  by (simp add: Date_iso_def digit_def utc_midnight_def DayFromYear_def DaysBeforeMonth_def
      DaysInMonth_def InLeapYear_def msPerDay_def upt_conv_Cons)

lemma Date_iso_2024_03_22: "Date_iso ''2024-03-22'' = Time 1711065600000"
  by (simp add: Date_iso_def digit_def utc_midnight_def DayFromYear_def DaysBeforeMonth_def
      DaysInMonth_def InLeapYear_def msPerDay_def upt_conv_Cons)

lemma utc_midnight_2024_03_22: "utc_midnight 2024 3 22 = 1711065600000"
  by (simp add: utc_midnight_def DayFromYear_def DaysBeforeMonth_def
      DaysInMonth_def InLeapYear_def msPerDay_def upt_conv_Cons)

text \<open>
  What the three branches compute when both dates are valid: \<open>'upcoming'\<close> before the
  instant \<open>start\<close>, \<open>'active'\<close> from \<open>start\<close> up to and including the instant \<open>end\<close>,
  \<open>'completed'\<close> after it. With a date-only string, the instant \<open>end\<close> is the first
  millisecond of the end date.
\<close>

lemma getTripStatus_valid:
  assumes "new_Date startDate = Time s" and "new_Date endDate = Time e"
  shows "getTripStatus new_Date now startDate endDate =
           (if now < s then ''upcoming'' else if now \<le> e then ''active'' else ''completed'')"
  using assms by (simp add: getTripStatus_def Let_def)

lemma getTripStatus_after_end_midnight:
  assumes "new_Date startDate = Time s" and "new_Date endDate = Time e"
    and "s \<le> e" and "e < now"
  shows "getTripStatus new_Date now startDate endDate = ''completed''"
  using assms by (simp add: getTripStatus_valid)

lemma getTripStatus_tokyo:
  "getTripStatus Date_iso now ''2024-03-15'' ''2024-03-22'' =
     (if now < 1710460800000 then ''upcoming''
      else if now \<le> 1711065600000 then ''active'' else ''completed'')"
  by (rule getTripStatus_valid) (rule Date_iso_2024_03_15 Date_iso_2024_03_22)+

lemma getTripStatus_spec_examples:
  "getTripStatus Date_iso (utc_midnight 2024 3 10 + t) ''2024-03-15'' ''2024-03-22'' =
     (if t < 5 * msPerDay then ''upcoming''
      else if t \<le> 12 * msPerDay then ''active'' else ''completed'')"
  by (simp add: getTripStatus_tokyo
      utc_midnight_def DayFromYear_def DaysBeforeMonth_def DaysInMonth_def InLeapYear_def
      msPerDay_def upt_conv_Cons)

text \<open>
  Claim C4 at noon UTC of the end date: with \<open>start = 2024-03-15\<close> and
  \<open>end = 2024-03-22\<close>, at the instant 2024-03-22T12:00:00Z (which is
  \<open>1711108800000\<close>) the status is \<open>'completed'\<close>, where the claim says \<open>'active'\<close> on
  the end date itself.
\<close>

theorem getTripStatus_noon_of_end_date:
  "utc_midnight 2024 3 22 + 12 * 60 * 60 * 1000 = 1711108800000 \<and>
   getTripStatus Date_iso 1711108800000 ''2024-03-15'' ''2024-03-22'' = ''completed''"
  by (simp add: getTripStatus_tokyo utc_midnight_2024_03_22)


section \<open>Grouping entries by date\<close>

lemma first_occurrences_snoc:
  "first_occurrences (xs @ [x]) =
     (if x \<in> set xs then first_occurrences xs else first_occurrences xs @ [x])"
  by (simp add: first_occurrences_def)

lemma set_first_occurrences [simp]: "set (first_occurrences xs) = set xs"
  by (simp add: first_occurrences_def)

lemma distinct_first_occurrences [simp]: "distinct (first_occurrences xs)"
  by (simp add: first_occurrences_def)

lemma set_insert_index_key [simp]: "set (insert_index_key k ks) = insert k (set ks)"
  by (induction ks) auto

lemma distinct_insert_index_key:
  "k \<notin> set ks \<Longrightarrow> distinct ks \<Longrightarrow> distinct (insert_index_key k ks)"
  by (induction ks) auto

lemma own_keys_snoc: "own_keys (ds @ [d]) = add_key (own_keys ds) d"
  by (simp add: own_keys_def)

lemma set_own_keys [simp]: "set (own_keys ds) = set ds"
  by (induction ds rule: rev_induct) (auto simp: own_keys_snoc add_key_def own_keys_def)

lemma distinct_own_keys [simp]: "distinct (own_keys ds)"
proof (induction ds rule: rev_induct)
  case Nil
  then show ?case by (simp add: own_keys_def)
next
  case (snoc d ds)
  then show ?case
    by (simp add: own_keys_snoc add_key_def distinct_insert_index_key)
qed

text \<open>Tabulated mappings.\<close>

lemma map_of_tabulate:
  "map_of (map (\<lambda>k. (k, f k)) ks) d = (if d \<in> set ks then Some (f d) else None)"
  by (induction ks) auto

lemma write_prop_tabulate:
  "write_prop d v (map (\<lambda>k. (k, f k)) ks) = map (\<lambda>k. (k, if k = d then v else f k)) ks"
  by (simp add: write_prop_def)

lemma create_index_prop_tabulate:
  "create_index_prop d v (map (\<lambda>k. (k, f k)) ks) =
     map (\<lambda>k. (k, if k = d then v else f k)) (insert_index_key d ks)"
  if "d \<notin> set ks"
  using that by (induction ks) auto

lemma create_prop_tabulate:
  assumes "d \<notin> set ks"
  shows "create_prop d v (map (\<lambda>k. (k, f k)) ks) =
           map (\<lambda>k. (k, if k = d then v else f k)) (add_key ks d)"
  using assms by (auto simp: create_prop_def add_key_def create_index_prop_tabulate)

lemma group_step_ok:
  assumes "e_date x \<notin> set Object_prototype_keys"
  shows "group_step (groups_in_key_order xs) x = Inr (groups_in_key_order (xs @ [x]))"
proof -
  let ?d = "e_date x"
  let ?ks = "own_keys (map e_date xs)"
  let ?f = "\<lambda>k. filter (\<lambda>entry. e_date entry = k) xs"
  let ?f' = "\<lambda>k. filter (\<lambda>entry. e_date entry = k) (xs @ [x])"
  have g: "groups_in_key_order xs = map (\<lambda>k. (k, ?f k)) ?ks"
    by (simp add: groups_in_key_order_def)
  have g': "groups_in_key_order (xs @ [x]) = map (\<lambda>k. (k, ?f' k)) (add_key ?ks ?d)"
    by (simp add: groups_in_key_order_def own_keys_snoc)
  show ?thesis
  proof (cases "?d \<in> set ?ks")
    case True
    then have a: "add_key ?ks ?d = ?ks" by (simp add: add_key_def)
    have p: "get_prop (groups_in_key_order xs) ?d = OwnArray (?f ?d)"
      using True by (simp add: g get_prop_def map_of_tabulate)
    have "write_prop ?d (?f ?d @ [x]) (map (\<lambda>k. (k, ?f k)) ?ks) = map (\<lambda>k. (k, ?f' k)) ?ks"
      unfolding write_prop_tabulate by (rule map_cong) auto
    then show ?thesis
      using p by (simp add: group_step_def Let_def g g' a)
  next
    case False
    have e: "?f ?d = []"
    proof -
      have "e_date entry \<noteq> ?d" if "entry \<in> set xs" for entry
        using that False by (metis imageI set_own_keys set_map)
      then show ?thesis by (simp add: filter_empty_conv)
    qed
    have u: "get_prop (groups_in_key_order xs) ?d = Undefined"
      using False assms by (simp add: g get_prop_def map_of_tabulate)
    let ?g1 = "map (\<lambda>k. (k, if k = ?d then [] else ?f k)) (add_key ?ks ?d)"
    have c: "create_prop ?d [] (groups_in_key_order xs) = ?g1"
      unfolding g using False by (rule create_prop_tabulate)
    have m: "?d \<in> set (add_key ?ks ?d)"
      by (simp add: add_key_def)
    have o: "get_prop ?g1 ?d = OwnArray []"
      using m by (simp add: get_prop_def map_of_tabulate)
    have "write_prop ?d ([] @ [x]) ?g1 = map (\<lambda>k. (k, ?f' k)) (add_key ?ks ?d)"
      unfolding write_prop_tabulate using e by (intro map_cong) auto
    then show ?thesis
      using u c o by (simp add: group_step_def Let_def g')
  qed
qed

lemma reduce_entries_ok:
  "\<forall>entry \<in> set rest. e_date entry \<notin> set Object_prototype_keys \<Longrightarrow>
   reduce_entries (groups_in_key_order done) rest = Inr (groups_in_key_order (done @ rest))"
proof (induction rest arbitrary: "done")
  case Nil
  then show ?case by simp
next
  case (Cons x rest)
  from Cons.prems have "e_date x \<notin> set Object_prototype_keys" by simp
  then have "group_step (groups_in_key_order done) x = Inr (groups_in_key_order (done @ [x]))"
    by (rule group_step_ok)
  moreover have "reduce_entries (groups_in_key_order (done @ [x])) rest =
      Inr (groups_in_key_order ((done @ [x]) @ rest))"
    using Cons.prems by (intro Cons.IH) simp
  ultimately show ?case by simp
qed

lemma groupEntriesByDate_ok:
  "\<forall>entry \<in> set entries. e_date entry \<notin> set Object_prototype_keys \<Longrightarrow>
   groupEntriesByDate entries = Inr (groups_in_key_order entries)"
  using reduce_entries_ok [of entries "[]"]
  by (simp add: groupEntriesByDate_def groups_in_key_order_def own_keys_def)

lemma mset_partition_by_keys:
  "distinct ds \<Longrightarrow>
   mset (concat (map (\<lambda>d. filter (\<lambda>x. f x = d) xs) ds)) = mset (filter (\<lambda>x. f x \<in> set ds) xs)"
proof (induction ds)
  case Nil
  then show ?case by simp
next
  case (Cons d ds)
  then have "d \<notin> set ds" by simp
  then have "mset (filter (\<lambda>x. f x = d) xs) + mset (filter (\<lambda>x. f x \<in> set ds) xs) =
      mset (filter (\<lambda>x. f x \<in> set (d # ds)) xs)"
    by (induction xs) auto
  with Cons show ?case by simp
qed

lemma mset_groups: "mset (concat (map snd (groups_in_key_order xs))) = mset xs"
proof -
  have "map snd (groups_in_key_order xs) =
      map (\<lambda>d. filter (\<lambda>entry. e_date entry = d) xs) (own_keys (map e_date xs))"
    by (simp add: groups_in_key_order_def comp_def)
  then show ?thesis
    by (simp add: mset_partition_by_keys)
qed

text \<open>The order of the keys.\<close>

lemma insert_index_key_order:
  assumes "is_array_index d"
    and "sorted_wrt (\<lambda>a b. is_array_index b \<longrightarrow> is_array_index a \<and> index_value a \<le> index_value b) ks"
  shows "sorted_wrt (\<lambda>a b. is_array_index b \<longrightarrow> is_array_index a \<and> index_value a \<le> index_value b)
           (insert_index_key d ks)"
  using assms(2)
proof (induction ks)
  case Nil
  then show ?case by simp
next
  case (Cons k ks)
  show ?case
  proof (cases "is_array_index k \<and> index_value k < index_value d")
    case True
    with Cons assms(1) show ?thesis by auto
  next
    case False
    have "is_array_index d \<and> index_value d \<le> index_value y"
      if "y \<in> set (k # ks)" and "is_array_index y" for y
    proof (cases "y = k")
      case True
      with that False assms(1) show ?thesis by auto
    next
      case other: False
      with that have "y \<in> set ks" by simp
      with Cons.prems that(2) have "is_array_index k \<and> index_value k \<le> index_value y"
        by auto
      with False assms(1) show ?thesis by auto
    qed
    with Cons.prems False show ?thesis by auto
  qed
qed

lemma own_keys_order:
  "sorted_wrt (\<lambda>a b. is_array_index b \<longrightarrow> is_array_index a \<and> index_value a \<le> index_value b)
     (own_keys ds)"
proof (induction ds rule: rev_induct)
  case Nil
  then show ?case by (simp add: own_keys_def)
next
  case (snoc d ds)
  then show ?case
    by (simp add: own_keys_snoc add_key_def insert_index_key_order sorted_wrt_append)
qed

lemma index_keys_first:
  assumes "sorted_wrt (\<lambda>a b. is_array_index b \<longrightarrow> is_array_index a \<and> index_value a \<le> index_value b) ks"
  shows "ks = filter is_array_index ks @ filter (\<lambda>k. \<not> is_array_index k) ks \<and>
         sorted (map index_value (filter is_array_index ks))"
  using assms
proof (induction ks)
  case Nil
  then show ?case by simp
next
  case (Cons k ks)
  show ?case
  proof (cases "is_array_index k")
    case True
    with Cons show ?thesis by auto
  next
    case False
    with Cons.prems have "\<forall>y \<in> set ks. \<not> is_array_index y" by auto
    then have "filter is_array_index ks = []" "filter (\<lambda>k. \<not> is_array_index k) ks = ks"
      by (simp_all add: filter_empty_conv filter_id_conv)
    with False show ?thesis by simp
  qed
qed

lemma filter_insert_index_key:
  "is_array_index d \<Longrightarrow>
   filter (\<lambda>k. \<not> is_array_index k) (insert_index_key d ks) = filter (\<lambda>k. \<not> is_array_index k) ks"
  by (induction ks) auto

lemma other_keys_first_occurrence:
  "filter (\<lambda>k. \<not> is_array_index k) (own_keys ds) =
     first_occurrences (filter (\<lambda>k. \<not> is_array_index k) ds)"
proof (induction ds rule: rev_induct)
  case Nil
  then show ?case by (simp add: own_keys_def first_occurrences_def)
next
  case (snoc d ds)
  then show ?case
    by (auto simp: own_keys_snoc add_key_def filter_insert_index_key first_occurrences_snoc)
qed

text \<open>
  A calendar date in the form \<open>YYYY-MM-DD\<close> is neither an array index nor a name of a
  property of \<open>Object.prototype\<close>; when no date is an array index, the keys are in the
  order of first occurrence.
\<close>

lemma number_digits: "number acc s = Some n \<Longrightarrow> \<forall>c \<in> set s. digit c \<noteq> None"
  by (induction s arbitrary: acc) (auto split: option.splits)

lemma array_index_digits: "is_array_index s \<Longrightarrow> \<forall>c \<in> set s. digit c \<noteq> None"
  by (auto simp: is_array_index_def dest: number_digits split: list.splits option.splits)

lemma calendar_date_plain_key:
  assumes "Date_iso s \<noteq> Invalid"
  shows "\<not> is_array_index s \<and> s \<notin> set Object_prototype_keys"
proof
  have "length s = 10 \<and> s ! 4 = CHR ''-''"
  proof (rule ccontr)
    assume "\<not> (length s = 10 \<and> s ! 4 = CHR ''-'')"
    then have "(length s = 10 \<and> s ! 4 = CHR ''-'' \<and> s ! 7 = CHR ''-'') = False"
      by blast
    then have "Date_iso s = Invalid" unfolding Date_iso_def by (simp only: if_False)
    with assms show False ..
  qed
  then have l: "length s = 10" and h: "s ! 4 = CHR ''-''" by simp_all
  from l have "s ! 4 \<in> set s" by (intro nth_mem) simp
  with h have "CHR ''-'' \<in> set s" by simp
  moreover have "digit CHR ''-'' = None" by (simp add: digit_def)
  ultimately show "\<not> is_array_index s" using array_index_digits by blast
  show "s \<notin> set Object_prototype_keys"
    using l by (auto simp: Object_prototype_keys_def)
qed

lemma own_keys_no_index:
  assumes "\<forall>d \<in> set ds. \<not> is_array_index d"
  shows "own_keys ds = first_occurrences ds"
proof -
  from assms have "filter (\<lambda>k. \<not> is_array_index k) (own_keys ds) = own_keys ds"
    "filter (\<lambda>k. \<not> is_array_index k) ds = ds"
    by (simp_all add: filter_id_conv)
  with other_keys_first_occurrence [of ds] show ?thesis by simp
qed

lemma Date_iso_2024_03_16: "Date_iso ''2024-03-16'' = Time 1710547200000"
  by (simp add: Date_iso_def digit_def utc_midnight_def DayFromYear_def DaysBeforeMonth_def
      DaysInMonth_def InLeapYear_def msPerDay_def upt_conv_Cons)

text \<open>A date that names a property of \<open>Object.prototype\<close>: \<open>push\<close> throws.\<close>

lemma groupEntriesByDate_prototype_name:
  "groupEntriesByDate [sample_entry ''a'' ''constructor'' None] =
     Inl (Exn ''TypeError: groups[date].push is not a function'')"
  by (simp add: groupEntriesByDate_def group_step_def get_prop_def Object_prototype_keys_def
      sample_entry_def Let_def)

text \<open>
  Claim C6, as stated, at a list of two entries of the dates \<open>'2'\<close> and \<open>'1'\<close>, in
  this order: both dates are array indices, so the keys of the mapping are enumerated
  \<open>'1'\<close>, \<open>'2'\<close>, in ascending numeric order, while the order of first occurrence in
  the input is \<open>'2'\<close>, \<open>'1'\<close>.
\<close>

theorem groupEntriesByDate_counterexample:
  "groupEntriesByDate [sample_entry ''a'' ''2'' None, sample_entry ''b'' ''1'' None] =
     Inr [(''1'', [sample_entry ''b'' ''1'' None]), (''2'', [sample_entry ''a'' ''2'' None])] \<and>
   first_occurrences (map e_date [sample_entry ''a'' ''2'' None, sample_entry ''b'' ''1'' None]) =
     [''2'', ''1'']"
  by (simp add: groupEntriesByDate_def group_step_def get_prop_def Object_prototype_keys_def
      create_prop_def is_array_index_def index_value_def digit_def write_prop_def
      sample_entry_def first_occurrences_def Let_def)

text \<open>
  Claim C6, amended: for every list of entries in which no date string names a
  property of \<open>Object.prototype\<close>, \<open>groupEntriesByDate\<close> returns a mapping in which
  every input entry appears exactly once (the groups together hold the entries of the
  input, each as often as the input does, and the keys are distinct), each group is
  keyed by the literal date string of its entries and lists exactly the entries of that
  date in their input order; the keys that are array indices are enumerated first, in
  ascending numeric order, and after them all other keys, in the order of each date's
  first occurrence in the input; when every date is a calendar date \<open>YYYY-MM-DD\<close>, the
  keys are enumerated in the order of each date's first occurrence in the input. What
  happens on a date that names a property of \<open>Object.prototype\<close> is not part of the
  statement.
\<close>

theorem groupEntriesByDate_groups:
  assumes "\<forall>entry \<in> set entries. e_date entry \<notin> set Object_prototype_keys"
  shows "\<exists>groups. groupEntriesByDate entries = Inr groups \<and>
           mset (concat (map snd groups)) = mset entries \<and>
           distinct (map fst groups) \<and>
           (\<forall>(d, es) \<in> set groups.
              es \<noteq> [] \<and> es = filter (\<lambda>entry. e_date entry = d) entries) \<and>
           map fst groups =
             filter is_array_index (map fst groups) @
             filter (\<lambda>d. \<not> is_array_index d) (map fst groups) \<and>
           sorted (map index_value (filter is_array_index (map fst groups))) \<and>
           filter (\<lambda>d. \<not> is_array_index d) (map fst groups) =
             first_occurrences (filter (\<lambda>d. \<not> is_array_index d) (map e_date entries)) \<and>
           ((\<forall>entry \<in> set entries. Date_iso (e_date entry) \<noteq> Invalid) \<longrightarrow>
              map fst groups = first_occurrences (map e_date entries))"
proof -
  let ?g = "groups_in_key_order entries"
  have k: "map fst ?g = own_keys (map e_date entries)"
    by (simp add: groups_in_key_order_def comp_def)
  have e: "\<forall>(d, es) \<in> set ?g. es \<noteq> [] \<and> es = filter (\<lambda>entry. e_date entry = d) entries"
    by (auto simp: groups_in_key_order_def filter_empty_conv)
  have c: "own_keys (map e_date entries) = first_occurrences (map e_date entries)"
    if "\<forall>entry \<in> set entries. Date_iso (e_date entry) \<noteq> Invalid"
    using that calendar_date_plain_key by (intro own_keys_no_index) auto
  show ?thesis
    using groupEntriesByDate_ok [OF assms] mset_groups [of entries] e c
      index_keys_first [OF own_keys_order [of "map e_date entries"]]
      other_keys_first_occurrence [of "map e_date entries"]
    unfolding k [symmetric] by (intro exI [of _ ?g]) (simp add: k)
qed

text \<open>
  The amended claim C6 at five entries of the dates \<open>2024-03-16\<close>, \<open>10\<close>,
  \<open>2024-03-15\<close>, \<open>7\<close> and \<open>2024-03-16\<close>, where the keys are \<open>7\<close>, \<open>10\<close>, then the
  two calendar dates in the order of their first occurrence; and at the three seed
  entries, of the calendar dates 15, 16 and 16 March.
\<close>

theorem groupEntriesByDate_groups_witness:
  "''2024-03-16'' \<notin> set Object_prototype_keys \<and> ''7'' \<notin> set Object_prototype_keys \<and>
   ''2024-03-15'' \<notin> set Object_prototype_keys \<and> ''10'' \<notin> set Object_prototype_keys \<and>
   groupEntriesByDate
     [sample_entry ''a'' ''2024-03-16'' None, sample_entry ''b'' ''10'' None,
      sample_entry ''c'' ''2024-03-15'' None, sample_entry ''d'' ''7'' None,
      sample_entry ''e'' ''2024-03-16'' None] =
     Inr [(''7'', [sample_entry ''d'' ''7'' None]), (''10'', [sample_entry ''b'' ''10'' None]),
          (''2024-03-16'',
             [sample_entry ''a'' ''2024-03-16'' None, sample_entry ''e'' ''2024-03-16'' None]),
          (''2024-03-15'', [sample_entry ''c'' ''2024-03-15'' None])] \<and>
   Date_iso ''2024-03-15'' \<noteq> Invalid \<and> Date_iso ''2024-03-16'' \<noteq> Invalid \<and>
   (\<exists>groups. groupEntriesByDate mockTripEntries = Inr groups \<and>
      map fst groups = [''2024-03-15'', ''2024-03-16''])"
proof -
  let ?es = "[sample_entry ''a'' ''2024-03-16'' None, sample_entry ''b'' ''10'' None,
      sample_entry ''c'' ''2024-03-15'' None, sample_entry ''d'' ''7'' None,
      sample_entry ''e'' ''2024-03-16'' None]"
  have p: "''2024-03-16'' \<notin> set Object_prototype_keys" "''7'' \<notin> set Object_prototype_keys"
    "''2024-03-15'' \<notin> set Object_prototype_keys" "''10'' \<notin> set Object_prototype_keys"
    by (simp_all add: Object_prototype_keys_def)
  then have h: "\<forall>entry \<in> set ?es. e_date entry \<notin> set Object_prototype_keys"
    by (simp add: sample_entry_def)
  have v: "groupEntriesByDate ?es =
     Inr [(''7'', [sample_entry ''d'' ''7'' None]), (''10'', [sample_entry ''b'' ''10'' None]),
          (''2024-03-16'',
             [sample_entry ''a'' ''2024-03-16'' None, sample_entry ''e'' ''2024-03-16'' None]),
          (''2024-03-15'', [sample_entry ''c'' ''2024-03-15'' None])]"
    by (simp add: groupEntriesByDate_def group_step_def get_prop_def Object_prototype_keys_def
      create_prop_def is_array_index_def index_value_def digit_def write_prop_def
      sample_entry_def Let_def)
  have d: "Date_iso ''2024-03-15'' \<noteq> Invalid" "Date_iso ''2024-03-16'' \<noteq> Invalid"
    by (simp_all add: Date_iso_2024_03_15 Date_iso_2024_03_16)
  have m: "map e_date mockTripEntries = [''2024-03-15'', ''2024-03-16'', ''2024-03-16'']"
    by (simp add: mockTripEntries_def)
  have hm: "\<forall>entry \<in> set mockTripEntries. e_date entry \<notin> set Object_prototype_keys"
    using p by (simp add: mockTripEntries_def)
  have dm: "\<forall>entry \<in> set mockTripEntries. Date_iso (e_date entry) \<noteq> Invalid"
    using d by (simp add: mockTripEntries_def)
  have f: "first_occurrences (map e_date mockTripEntries) = [''2024-03-15'', ''2024-03-16'']"
    unfolding m by (simp add: first_occurrences_def)
  from groupEntriesByDate_groups [OF hm] dm obtain groups where "groupEntriesByDate mockTripEntries = Inr groups"
    "map fst groups = first_occurrences (map e_date mockTripEntries)"
    by blast
  with f have "\<exists>groups. groupEntriesByDate mockTripEntries = Inr groups \<and>
      map fst groups = [''2024-03-15'', ''2024-03-16'']" by auto
  with groupEntriesByDate_groups [OF h] p v d show ?thesis by blast
qed
section \<open>Sorting a day's entries by start time\<close>

















section \<open>Creating a trip or an entry\<close>

lemma onSubmit_nonempty: "onSubmit env data \<noteq> []"
  by (simp add: onSubmit_def)

lemma tripSchema_Inr:
  assumes "tripSchema form = Inr data"
  shows "d_startDate data \<le> d_endDate data \<and>
         f_startDate form = Some (Time (d_startDate data)) \<and>
         f_endDate form = Some (Time (d_endDate data)) \<and>
         d_title data = f_title form \<and> f_title form \<noteq> '''' \<and>
         d_destination data = f_destination form \<and> f_destination form \<noteq> ''''"
  using assms
  by (auto simp: tripSchema_def Let_def min1_def date_field_def
      split: option.splits js_date.splits if_splits)

lemma tripSchema_end_before_start:
  assumes "f_startDate form = Some (Time s)" and "f_endDate form = Some (Time e)" and "e < s"
  shows "\<exists>issues. tripSchema form = Inl issues \<and>
           (''endDate'', ''End date must be after start date'') \<in> set issues"
  using assms by (simp add: tripSchema_def Let_def)

lemma utc_midnight_june:
  "utc_midnight 2024 6 5 = 1717545600000"
  "utc_midnight 2024 6 10 = 1717977600000"
  "utc_midnight 2024 6 25 = 1719273600000"
  by (simp_all add: utc_midnight_def DayFromYear_def DaysBeforeMonth_def
      DaysInMonth_def InLeapYear_def msPerDay_def upt_conv_Cons)

text \<open>
  Claim C8: a submission of the trip form whose end date is strictly earlier than its
  start date fails the validation of \<open>tripSchema\<close> with the issue
  \<open>End date must be after start date\<close> at \<open>endDate\<close>, and \<open>handleSubmit\<close> then runs
  nothing: no call of \<open>onSubmit\<close>, hence no \<open>db.trips.create\<close>. Conversely, whenever
  \<open>handleSubmit\<close> runs anything, it is \<open>onSubmit\<close> on the parsed data of a form whose
  two dates are valid with \<open>startDate \<le> endDate\<close>.
\<close>

theorem end_before_start_rejected:
  "(f_startDate form = Some (Time s) \<and> f_endDate form = Some (Time e) \<and> e < s \<longrightarrow>
      (\<exists>issues. tripSchema form = Inl issues \<and>
         (''endDate'', ''End date must be after start date'') \<in> set issues \<and>
         handleSubmit env form = (issues, []))) \<and>
   (snd (handleSubmit env form) \<noteq> [] \<longrightarrow>
      (\<exists>data. tripSchema form = Inr data \<and>
         handleSubmit env form = ([], onSubmit env data) \<and>
         f_startDate form = Some (Time (d_startDate data)) \<and>
         f_endDate form = Some (Time (d_endDate data)) \<and>
         d_startDate data \<le> d_endDate data))"
proof (intro conjI impI)
  assume "f_startDate form = Some (Time s) \<and> f_endDate form = Some (Time e) \<and> e < s"
  then obtain issues where "tripSchema form = Inl issues"
    and "(''endDate'', ''End date must be after start date'') \<in> set issues"
    using tripSchema_end_before_start [of form s e] by blast
  then show "\<exists>issues. tripSchema form = Inl issues \<and>
         (''endDate'', ''End date must be after start date'') \<in> set issues \<and>
         handleSubmit env form = (issues, [])"
    by (simp add: handleSubmit_def)
next
  assume ran: "snd (handleSubmit env form) \<noteq> []"
  then obtain data where d: "tripSchema form = Inr data"
    by (cases "tripSchema form") (simp_all add: handleSubmit_def)
  then show "\<exists>data. tripSchema form = Inr data \<and>
         handleSubmit env form = ([], onSubmit env data) \<and>
         f_startDate form = Some (Time (d_startDate data)) \<and>
         f_endDate form = Some (Time (d_endDate data)) \<and>
         d_startDate data \<le> d_endDate data"
    using tripSchema_Inr [OF d] by (simp add: handleSubmit_def)
qed

text \<open>
  Claim C8 at the dates of the claim, start 2024-06-10 and end 2024-06-05: the
  submission is rejected and nothing runs; and at start 2024-06-10, end 2024-06-25,
  where the handler runs.
\<close>

theorem end_before_start_rejected_witness:
  "f_startDate (june_form 10 5) = Some (Time 1717977600000) \<and>
   f_endDate (june_form 10 5) = Some (Time 1717545600000) \<and>
   (1717545600000 :: int) < 1717977600000 \<and>
   handleSubmit write_fails_env (june_form 10 5) =
     ([(''endDate'', ''End date must be after start date'')], []) \<and>
   snd (handleSubmit write_fails_env (june_form 10 25)) \<noteq> [] \<and>
   fst (handleSubmit write_fails_env (june_form 10 25)) = []"
  using end_before_start_rejected [of "june_form 10 5" 1717977600000 1717545600000 write_fails_env]
    end_before_start_rejected [of "june_form 10 25" 0 0 write_fails_env] onSubmit_nonempty
  by (simp add: june_form_def utc_midnight_june tripSchema_def handleSubmit_def Let_def
      min1_def date_field_def)

text \<open>
  Claim C9: for validated data and a signed-in user, when \<open>db.trips.create\<close> throws,
  \<open>onSubmit\<close> still shows a toast that is not destructive, titled \<open>Trip created!\<close>,
  then resets the form and closes the dialog; the run in which the same write succeeds
  differs only in the console line and in the title and description of the toast
  (\<open>Trip created successfully!\<close>). The same holds for \<open>CreateEntryDialog\<close> and
  \<open>db.tripEntries.create\<close>, with the titles \<open>Entry added!\<close> and
  \<open>Entry added successfully!\<close>.
\<close>

theorem failed_write_reports_success:
  assumes "env_me env = Inr usr"
  shows "(env_trips_create env (tripData env usr data) = Inl err \<longrightarrow>
          (\<exists>rest.
             onSubmit env data =
               [SetLoading True, AuthMe, TripsCreate (tripData env usr data),
                ConsoleLog ''Database not available, trip created locally:'',
                ShowToast \<lparr> toast_title = ''Trip created!'',
                  toast_description = ''Your trip to '' @ d_destination data @
                    '' has been created (database not available).'',
                  toast_variant = None \<rparr>,
                FormReset, OnOpenChange False] @ rest \<and>
             onSubmit (env\<lparr>env_trips_create := (\<lambda>row. Inr ())\<rparr>) data =
               [SetLoading True, AuthMe, TripsCreate (tripData env usr data),
                ShowToast \<lparr> toast_title = ''Trip created successfully!'',
                  toast_description = ''Your trip to '' @ d_destination data @
                    '' has been created.'',
                  toast_variant = None \<rparr>,
                FormReset, OnOpenChange False] @ rest)) \<and>
         (env_tripEntries_create env (entryData env tripId usr entry) = Inl err' \<longrightarrow>
          (\<exists>rest.
             onSubmit_entry env tripId entry =
               [SetLoading True, AuthMe, TripEntriesCreate (entryData env tripId usr entry),
                ConsoleLog ''Database not available, entry created locally:'',
                ShowToast \<lparr> toast_title = ''Entry added!'',
                  toast_description = d_entry_title entry @
                    '' has been added (database not available).'',
                  toast_variant = None \<rparr>,
                FormReset, OnOpenChange False] @ rest \<and>
             onSubmit_entry (env\<lparr>env_tripEntries_create := (\<lambda>row. Inr ())\<rparr>) tripId entry =
               [SetLoading True, AuthMe, TripEntriesCreate (entryData env tripId usr entry),
                ShowToast \<lparr> toast_title = ''Entry added successfully!'',
                  toast_description = d_entry_title entry @
                    '' has been added to your itinerary.'',
                  toast_variant = None \<rparr>,
                FormReset, OnOpenChange False] @ rest))"
proof -
  have t: "tripData (env\<lparr>env_trips_create := f\<rparr>) usr data = tripData env usr data" for f
    by (simp add: tripData_def)
  have e: "entryData (env\<lparr>env_tripEntries_create := f\<rparr>) tripId usr entry =
      entryData env tripId usr entry" for f
    by (simp add: entryData_def)
  show ?thesis
    using assms
    by (simp add: onSubmit_def onSubmit_entry_def t e trip_local_toast_def trip_saved_toast_def
        entry_local_toast_def entry_saved_toast_def)
qed

text \<open>
  Claim C9 for the user \<open>alice\<close> in an environment where every write throws: the four
  events after the write, in each dialog.
\<close>

theorem failed_write_reports_success_witness:
  "env_me write_fails_env = Inr \<lparr> u_id = ''alice'', u_email = ''alice@example.org'' \<rparr> \<and>
   env_trips_create write_fails_env
     (tripData write_fails_env \<lparr> u_id = ''alice'', u_email = ''alice@example.org'' \<rparr>
        \<lparr> d_title = ''European Summer'', d_description = Some '''', d_destination = ''Paris'',
          d_startDate = 1717977600000, d_endDate = 1719273600000 \<rparr>) = Inl (Exn ''offline'') \<and>
   env_tripEntries_create write_fails_env
     (entryData write_fails_env ''1'' \<lparr> u_id = ''alice'', u_email = ''alice@example.org'' \<rparr>
        sample_entry_data) = Inl (Exn ''offline'') \<and>
   take 4 (drop 3 (onSubmit write_fails_env
        \<lparr> d_title = ''European Summer'', d_description = Some '''', d_destination = ''Paris'',
          d_startDate = 1717977600000, d_endDate = 1719273600000 \<rparr>)) =
     [ConsoleLog ''Database not available, trip created locally:'',
      ShowToast \<lparr> toast_title = ''Trip created!'',
        toast_description = ''Your trip to Paris has been created (database not available).'',
        toast_variant = None \<rparr>,
      FormReset, OnOpenChange False] \<and>
   take 4 (drop 3 (onSubmit_entry write_fails_env ''1'' sample_entry_data)) =
     [ConsoleLog ''Database not available, entry created locally:'',
      ShowToast \<lparr> toast_title = ''Entry added!'',
        toast_description = ''Louvre has been added (database not available).'',
        toast_variant = None \<rparr>,
      FormReset, OnOpenChange False]"
proof -
  let ?u = "\<lparr> u_id = ''alice'', u_email = ''alice@example.org'' \<rparr>"
  have m: "env_me write_fails_env = Inr ?u"
    by (simp add: write_fails_env_def)
  have w: "env_trips_create write_fails_env row = Inl (Exn ''offline'')"
    "env_tripEntries_create write_fails_env erow = Inl (Exn ''offline'')" for row erow
    by (simp_all add: write_fails_env_def)
  show ?thesis
    using m w 
      failed_write_reports_success [OF m, of "\<lparr> d_title = ''European Summer'', d_description = Some '''',
          d_destination = ''Paris'', d_startDate = 1717977600000, d_endDate = 1719273600000 \<rparr>"
        "Exn ''offline''" "''1''" sample_entry_data "Exn ''offline''"]
    by (auto simp: sample_entry_data_def)
qed

section \<open>Packing progress\<close>

text \<open>
  The exponent is the right one, and rounding to 53 bits changes a positive number by
  at most the fraction \<open>2^-53\<close> of it.
\<close>

lemma bit_length_1: "bit_length (Suc 0) = Suc 0"
  by (subst bit_length.simps, subst bit_length.simps, simp)

lemma bit_length_step: "0 < n \<Longrightarrow> bit_length n = Suc (bit_length (n div 2))"
  by (subst bit_length.simps) simp

lemma bit_length_pos: "0 < n \<Longrightarrow> 0 < bit_length n"
  by (simp add: bit_length_step)

lemma bit_length_bounds:
  "0 < n \<Longrightarrow> 2 ^ (bit_length n - 1) \<le> n \<and> n < 2 ^ bit_length n"
proof (induction n rule: bit_length.induct)
  case (1 n)
  show ?case
  proof (cases "n div 2 = 0")
    case True
    with "1.prems" have "n = Suc 0" by (auto simp: div_eq_0_iff)
    then show ?thesis by (simp add: bit_length_1)
  next
    case False
    then have pos: "0 < n div 2" by simp
    with "1.IH" "1.prems" have ih: "2 ^ (bit_length (n div 2) - 1) \<le> n div 2"
      "n div 2 < 2 ^ bit_length (n div 2)" by simp_all
    from bit_length_pos [OF pos] have bl: "bit_length (n div 2) = Suc (bit_length (n div 2) - 1)"
      by simp
    have eq: "bit_length n = Suc (bit_length (n div 2))"
      using "1.prems" by (rule bit_length_step)
    have "2 ^ bit_length (n div 2) \<le> n"
    proof -
      have "2 ^ bit_length (n div 2) = 2 * 2 ^ (bit_length (n div 2) - 1)"
        by (subst bl) simp
      also have "\<dots> \<le> 2 * (n div 2)" using ih(1) by simp
      also have "\<dots> \<le> n" by simp
      finally show ?thesis .
    qed
    moreover have "n < 2 * 2 ^ bit_length (n div 2)"
      using ih(2) by linarith
    ultimately show ?thesis by (simp add: eq)
  qed
qed

lemma pow2_powi: "pow2 e = 2 powi e"
  by (simp add: pow2_def power_int_def field_simps)

lemma pow2_pos [simp]: "0 < pow2 e"
  by (simp add: pow2_powi)

lemma pow2_nonzero [simp]: "pow2 e \<noteq> 0"
  by (simp add: pow2_powi)

lemma pow2_diff: "pow2 (a - b) = pow2 a / pow2 b"
  by (simp add: pow2_powi power_int_diff)

lemma pow2_of_nat: "pow2 (int k) = 2 ^ k"
  by (simp add: pow2_def)

lemma expo_bounds:
  assumes "0 < x"
  shows "pow2 (expo x) \<le> x \<and> x < pow2 (expo x + 1)"
proof (cases "1 \<le> x")
  case True
  let ?n = "nat \<lfloor>x\<rfloor>"
  from True have n: "0 < ?n" by simp
  have nv: "(of_nat ?n :: rat) = of_int \<lfloor>x\<rfloor>"
    using True by (simp add: of_nat_nat)
  have fl: "of_nat ?n \<le> x" "x < of_nat ?n + 1"
    unfolding nv by linarith+
  from bit_length_bounds [OF n] have b: "2 ^ (bit_length ?n - 1) \<le> ?n" "?n < 2 ^ bit_length ?n"
    by simp_all
  from n have k: "0 < bit_length ?n" by (rule bit_length_pos)
  have e: "expo x = int (bit_length ?n - 1)"
    using True k by (simp add: expo_def of_nat_diff)
  have e1: "expo x + 1 = int (bit_length ?n)"
    using True k by (simp add: expo_def)
  have "(2 :: rat) ^ (bit_length ?n - 1) \<le> of_nat ?n"
    using b(1) by (metis of_nat_le_iff of_nat_numeral of_nat_power)
  with fl(1) have lo: "pow2 (expo x) \<le> x"
    unfolding e pow2_of_nat by linarith
  from b(2) have "Suc ?n \<le> 2 ^ bit_length ?n" by (rule Suc_leI)
  then have "(of_nat (Suc ?n) :: rat) \<le> of_nat (2 ^ bit_length ?n)"
    unfolding of_nat_le_iff .
  then have "(of_nat ?n + 1 :: rat) \<le> 2 ^ bit_length ?n"
    by simp
  with fl(2) have hi: "x < pow2 (expo x + 1)"
    unfolding e1 pow2_of_nat by linarith
  from lo hi show ?thesis ..
next
  case False
  then have x1: "x < 1" by simp
  let ?c = "nat (\<lceil>1 / x\<rceil> - 1)"
  have inv: "1 < 1 / x" using assms x1 by (simp add: field_simps)
  then have ce: "2 \<le> \<lceil>1 / x\<rceil>" using assms by (simp add: le_ceiling_iff)
  then have c: "0 < ?c" by linarith
  from ce have "0 \<le> \<lceil>1 / x\<rceil> - 1" by linarith
  then have cv: "int ?c = \<lceil>1 / x\<rceil> - 1" by (rule nat_0_le)
  from bit_length_bounds [OF c] have b: "2 ^ (bit_length ?c - 1) \<le> ?c" "?c < 2 ^ bit_length ?c"
    by simp_all
  from c have k: "0 < bit_length ?c" by (rule bit_length_pos)
  have e: "expo x = - int (bit_length ?c)"
    using False by (simp add: expo_def)
  have p: "pow2 (expo x) = 1 / 2 ^ bit_length ?c"
    using k by (simp add: e pow2_def)
  have p1: "pow2 (expo x + 1) = 1 / 2 ^ (bit_length ?c - 1)"
  proof (cases "bit_length ?c = 1")
    case True
    then show ?thesis by (simp add: e pow2_def)
  next
    case False
    with k have "1 < bit_length ?c" by simp
    then have "nat (int (bit_length ?c) - 1) = bit_length ?c - 1" by simp
    with \<open>1 < bit_length ?c\<close> show ?thesis by (simp add: e pow2_def)
  qed
  have "int ?c + 1 \<le> 2 ^ bit_length ?c"
    using b(2) by (metis add.commute of_nat_Suc of_nat_le_iff of_nat_numeral of_nat_power
        Suc_leI plus_1_eq_Suc)
  then have "\<lceil>1 / x\<rceil> \<le> 2 ^ bit_length ?c" using cv by simp
  then have "1 / x \<le> 2 ^ bit_length ?c"
    by (metis ceiling_le_iff of_int_numeral of_int_power)
  then have lo: "pow2 (expo x) \<le> x"
    unfolding p using assms by (simp add: field_simps)
  have "(2 :: int) ^ (bit_length ?c - 1) \<le> int ?c"
    using b(1) by (metis of_nat_le_iff of_nat_numeral of_nat_power)
  then have "(2 :: int) ^ (bit_length ?c - 1) < \<lceil>1 / x\<rceil>" using cv by simp
  then have "(2 :: rat) ^ (bit_length ?c - 1) < 1 / x"
    by (metis less_ceiling_iff of_int_numeral of_int_power)
  then have hi: "x < pow2 (expo x + 1)"
    unfolding p1 using assms by (simp add: field_simps)
  from lo hi show ?thesis ..
qed

lemma round_half_even_error: "\<bar>of_int (round_half_even y) - y\<bar> \<le> 1 / 2"
proof -
  have "of_int \<lfloor>y\<rfloor> \<le> y" "y < of_int \<lfloor>y\<rfloor> + 1" by linarith+
  then show ?thesis
    by (auto simp: round_half_even_def Let_def abs_le_iff)
qed

lemma fl_error:
  assumes "0 < x"
  shows "\<bar>fl x - x\<bar> \<le> x / 2 ^ 53"
proof -
  let ?u = "pow2 (expo x - 52)"
  have u: "0 < ?u" by simp
  have u0: "?u \<noteq> 0" by simp
  have "fl x = of_int (round_half_even (x / ?u)) * ?u"
    using assms by (simp add: fl_def)
  then have "fl x - x = (of_int (round_half_even (x / ?u)) - x / ?u) * ?u"
    using u0 by (simp add: left_diff_distrib)
  then have "\<bar>fl x - x\<bar> = \<bar>of_int (round_half_even (x / ?u)) - x / ?u\<bar> * ?u"
    by (simp add: abs_mult abs_of_pos)
  also have "\<dots> \<le> 1 / 2 * ?u"
    using round_half_even_error [of "x / ?u"] less_imp_le [OF pow2_pos [of "expo x - 52"]]
    by (intro mult_right_mono)
  also have "\<dots> = pow2 (expo x) / 2 ^ 53"
    using pow2_of_nat [of 52] by (simp add: pow2_diff)
  also have "\<dots> \<le> x / 2 ^ 53"
    using expo_bounds [OF assms] by (simp add: divide_right_mono)
  finally show ?thesis .
qed

lemma fl_zero [simp]: "fl 0 = 0"
  by (simp add: fl_def)

lemma percent_nearest:
  fixes p n :: nat
  assumes n: "0 < n" and pn: "p \<le> n" and small: "n < 2 ^ 32"
  shows "\<bar>of_int (Math_round (fl (fl (of_nat p / of_nat n) * 100))) - 100 * of_nat p / of_nat n\<bar>
           \<le> (1 / 2 :: rat)"
proof (cases "p = 0")
  case True
  have "\<lfloor>1 / 2 :: rat\<rfloor> = 0" by (rule floor_unique) simp_all
  with True show ?thesis by (simp add: Math_round_def)
next
  case False
  define y :: rat where "y = of_nat p / of_nat n"
  define q where "q = fl y"
  define v where "v = fl (q * 100)"
  define r where "r = Math_round v"
  define x :: rat where "x = 100 * of_nat p / of_nat n"
  define eps :: rat where "eps = 1 / 2 ^ 53"
  have eps: "0 < eps" "eps \<le> 1" by (simp_all add: eps_def)
  have y: "0 < y" "y \<le> 1"
    using False n pn by (simp_all add: y_def)
  have xy: "x = 100 * y" by (simp add: x_def y_def)
  have "\<bar>q - y\<bar> \<le> y / 2 ^ 53"
    unfolding q_def using y(1) by (rule fl_error)
  then have qy: "\<bar>q - y\<bar> \<le> y * eps" by (simp add: eps_def)
  also have "y * eps \<le> eps" using y eps by (simp add: mult_left_le_one_le)
  finally have qy1: "\<bar>q - y\<bar> \<le> eps" .
  have "y * eps < y" using y(1) by (simp add: eps_def)
  with qy have q0: "0 < q" by linarith
  from qy1 y(2) eps(2) have q2: "q \<le> 2" by linarith
  have "\<bar>v - q * 100\<bar> \<le> q * 100 / 2 ^ 53"
    unfolding v_def using q0 by (intro fl_error) simp
  also have "\<dots> = q * (100 * eps)" by (simp add: eps_def)
  also have "\<dots> \<le> 2 * (100 * eps)"
    using q2 eps(1) by (intro mult_right_mono) simp_all
  finally have vq: "\<bar>v - q * 100\<bar> \<le> 200 * eps" by simp
  have vx: "\<bar>v - x\<bar> \<le> 300 * eps"
    using vq qy1 unfolding xy by linarith
  have rv: "of_int r \<le> v + 1 / 2" "v + 1 / 2 < of_int r + 1"
    unfolding r_def Math_round_def by linarith+
  define d :: int where "d = 2 * int n * r - 200 * int p"
  have dv: "of_int d = 2 * of_nat n * (of_int r - x)"
    using n by (simp add: d_def x_def field_simps)
  have rx: "\<bar>of_int r - x\<bar> \<le> 1 / 2 + 300 * eps"
    using rv vx by linarith
  have "(600 :: rat) * of_nat n < 2 ^ 53"
  proof -
    have "600 * n < 2 ^ 53" using small by simp
    then have "of_nat (600 * n) < (of_nat (2 ^ 53) :: rat)"
      unfolding of_nat_less_iff .
    then show ?thesis by simp
  qed
  then have ne: "600 * of_nat n * eps < 1"
    by (simp add: eps_def)
  have "\<bar>of_int d :: rat\<bar> = 2 * of_nat n * \<bar>of_int r - x\<bar>"
    unfolding dv by (simp add: abs_mult)
  also have "\<dots> \<le> 2 * of_nat n * (1 / 2 + 300 * eps)"
    using rx by (intro mult_left_mono) simp_all
  also have "\<dots> = of_nat n + 600 * of_nat n * eps"
    by (simp add: algebra_simps)
  also have "\<dots> < of_nat n + 1" using ne by simp
  finally have "\<bar>of_int d :: rat\<bar> < of_int (int n + 1)" by simp
  then have "\<bar>d\<bar> < int n + 1"
    by (metis of_int_abs of_int_less_iff)
  then have "\<bar>d\<bar> \<le> int n" by simp
  then have "(of_int \<bar>d\<bar> :: rat) \<le> of_int (int n)"
    unfolding of_int_le_iff .
  then have "2 * of_nat n * \<bar>of_int r - x\<bar> \<le> (of_nat n :: rat)"
    using dv by (simp add: abs_mult)
  then have "\<bar>of_int r - x\<bar> \<le> 1 / 2"
    using n by (simp add: field_simps)
  then show ?thesis
    by (simp add: r_def v_def q_def y_def x_def)
qed

lemma nearest_not_half:
  fixes x :: rat
  assumes "\<bar>of_int r - x\<bar> \<le> 1 / 2" and "frac x \<noteq> 1 / 2"
  shows "r = \<lfloor>x + 1 / 2\<rfloor>"
proof -
  have "x - 1 / 2 \<noteq> of_int r"
  proof
    assume "x - 1 / 2 = of_int r"
    then have x: "x = of_int r + 1 / 2" by simp
    have "\<lfloor>x\<rfloor> = r" unfolding x by (rule floor_unique) simp_all
    then have "frac x = 1 / 2" unfolding frac_def using x by simp
    with assms(2) show False ..
  qed
  with assms(1) have "of_int r \<le> x + 1 / 2" "x + 1 / 2 < of_int r + 1"
    by linarith+
  then show ?thesis by (simp add: floor_unique)
qed

lemma filter_length_le: "length (filter P xs) \<le> length xs"
  by simp

lemma length_packing_list: "length (packing_list p u) = p + u"
  by (simp add: packing_list_def)

lemma packed_packing_list: "length (filter l_isPacked (packing_list p u)) = p"
  by (simp add: packing_list_def list_item_def)

lemma getPackingProgress_packing_list:
  "getPackingProgress (packing_list p u) =
     (if p + u = 0 then 0 else Math_round (fl (fl (of_nat p / of_nat (p + u)) * 100)))"
  by (simp add: getPackingProgress_def length_packing_list packed_packing_list Let_def
      del: of_nat_add)

lemma progress_23_of_40: "Math_round (fl (fl (23 / 40) * 100)) = 57"
  by code_simp

lemma progress_1_of_8: "Math_round (fl (fl (1 / 8) * 100)) = 13"
  by code_simp

lemma progress_29_of_200: "Math_round (fl (fl (29 / 200) * 100)) = 14"
  by code_simp

text \<open>
  Claim C5, as stated, at three lists where \<open>100 * packed / total\<close> lies exactly halfway
  between two integers. With 23 of 40 items packed the value is \<open>57.5\<close> and the code
  returns \<open>57\<close>: \<open>23 / 40\<close> is rounded down to a binary fraction, and the product with
  \<open>100\<close> is \<open>57.49999999999999\<close>. With 1 of 8 it is \<open>12.5\<close> and the code returns \<open>13\<close>;
  with 29 of 200 it is \<open>14.5\<close> and the code returns \<open>14\<close>. So the result is not
  \<open>round(100 * packed / total)\<close> for rounding halves up (\<open>58\<close>, \<open>13\<close>, \<open>15\<close>), nor
  for halves down, to even or to odd.
\<close>

theorem getPackingProgress_counterexample:
  "getPackingProgress (packing_list 23 17) = 57 \<and> (100 * 23 / 40 :: rat) = 57 + 1 / 2 \<and>
   getPackingProgress (packing_list 1 7) = 13 \<and> (100 * 1 / 8 :: rat) = 12 + 1 / 2 \<and>
   getPackingProgress (packing_list 29 171) = 14 \<and> (100 * 29 / 200 :: rat) = 14 + 1 / 2"
  by (simp add: getPackingProgress_packing_list progress_23_of_40 progress_1_of_8
      progress_29_of_200)

text \<open>
  Claim C5, amended: the packing completion percentage is \<open>0\<close> for the empty list; for
  every other list (of fewer than \<open>2^32\<close> items, as every array is) it is an integer
  nearest to \<open>100 * packed / total\<close>, at most \<open>1/2\<close> away from it; and it equals
  \<open>round(100 * packed / total)\<close>, halves rounded up, whenever \<open>100 * packed / total\<close> is
  not exactly halfway between two integers.
\<close>

theorem getPackingProgress_nearest:
  "getPackingProgress [] = 0 \<and>
   (items \<noteq> [] \<and> length items < 2 ^ 32 \<longrightarrow>
      \<bar>of_int (getPackingProgress items) -
         100 * of_nat (length (filter l_isPacked items)) / of_nat (length items)\<bar>
        \<le> (1 / 2 :: rat) \<and>
      (frac (100 * of_nat (length (filter l_isPacked items)) / of_nat (length items) :: rat)
         \<noteq> 1 / 2 \<longrightarrow>
       getPackingProgress items =
         \<lfloor>100 * of_nat (length (filter l_isPacked items)) / of_nat (length items)
            + 1 / 2 :: rat\<rfloor>))"
proof (intro conjI impI)
  show "getPackingProgress [] = 0" by (simp add: getPackingProgress_def)
next
  assume a: "items \<noteq> [] \<and> length items < 2 ^ 32"
  let ?p = "length (filter l_isPacked items)"
  let ?n = "length items"
  from a have n: "0 < ?n" by simp
  have g: "getPackingProgress items = Math_round (fl (fl (of_nat ?p / of_nat ?n) * 100))"
    using a by (simp add: getPackingProgress_def Let_def)
  show near: "\<bar>of_int (getPackingProgress items) - 100 * of_nat ?p / of_nat ?n\<bar> \<le> (1 / 2 :: rat)"
    unfolding g using n filter_length_le a by (intro percent_nearest) simp_all
  assume "frac (100 * of_nat ?p / of_nat ?n :: rat) \<noteq> 1 / 2"
  with near show "getPackingProgress items = \<lfloor>100 * of_nat ?p / of_nat ?n + 1 / 2 :: rat\<rfloor>"
    by (rule nearest_not_half)
qed

text \<open>The amended claim C5 at a list of three items, one of them packed: 33 percent.\<close>

theorem getPackingProgress_nearest_witness:
  "packing_list 1 2 \<noteq> [] \<and> length (packing_list 1 2) < 2 ^ 32 \<and>
   frac (100 * 1 / 3 :: rat) \<noteq> 1 / 2 \<and>
   getPackingProgress (packing_list 1 2) = 33"
proof -
  have "\<lfloor>100 / 3 :: rat\<rfloor> = 33" by (rule floor_unique) simp_all
  then have f: "frac (100 / 3 :: rat) = 1 / 3"
    unfolding frac_def by simp
  have l: "length (packing_list 1 2) = 3" "length (filter l_isPacked (packing_list 1 2)) = 1"
    by (simp_all add: length_packing_list packed_packing_list)
  have e: "packing_list 1 2 \<noteq> []"
    using l(1) by auto
  have r: "\<lfloor>203 / 6 :: rat\<rfloor> = 33"
    by (rule floor_unique) simp_all
  from getPackingProgress_nearest [of "packing_list 1 2"] e show ?thesis
    unfolding l by (simp add: f r)
qed

end
